theory Spec2Isabelle
  imports Complex_Main
begin

section \<open>The block-stacking engine (GameEngine) as a state machine\<close>

text \<open>
  The embedding follows the class \<^verbatim>\<open>GameEngine\<close> and the table \<^verbatim>\<open>GAME_CONFIG\<close>.
  JavaScript numbers that hold lengths, positions and speeds are idealised as exact
  rationals: the source computes in doubles and rounds every sum and product, the model
  does not. A position reached after many frames therefore differs from the source's by
  the accumulated rounding (about 1e-14 after a hundred frames), and the properties below
  are stated
  so that they do not depend on it: bounds are stated with the closed comparison where
  rounding can reach the bound, and the concrete runs keep every tap well away from the
  thresholds that decide its outcome. The score and the combo counter only ever hold
  non-negative integers and are natural numbers. The scene graph,
  materials, colours, rotations, camera, audio and haptics carry no decision of the engine
  and are left out; the two public callbacks \<^verbatim>\<open>onScoreUpdate\<close> and \<^verbatim>\<open>onGameOver\<close>
  are recorded in a log of calls, oldest first.

  Meshes are values here. The one place where the source shares a mesh is the block that
  ends a game: it is pushed onto the debris list and stays in \<^verbatim>\<open>currentBlock\<close>. The
  model keeps a copy in each place; until \<^verbatim>\<open>startGame\<close> or \<^verbatim>\<open>reviveGame\<close> overwrites
  \<^verbatim>\<open>currentBlock\<close> the source reads it only to release it, since every other read is
  guarded by \<^verbatim>\<open>isGameRunning\<close>.
\<close>

subsection \<open>GAME\_CONFIG\<close>

definition defaultBlockSize :: rat where "defaultBlockSize = 3"
definition blockHeight :: rat where "blockHeight = 1"
definition moveSpeed :: rat where "moveSpeed = 15 / 100"
definition errorTolerance :: rat where "errorTolerance = 2 / 10"
definition initialErrorTolerance :: rat where "initialErrorTolerance = 6 / 10"
definition difficultyRamp :: rat where "difficultyRamp = 15"
definition comboThreshold :: nat where "comboThreshold = 3"
definition growthFactor :: rat where "growthFactor = 5 / 10"

subsection \<open>Difficulty and combo model\<close>

text \<open>
  \<^verbatim>\<open>placeBlock\<close>, lines 261-265: the tolerance starts at the final value and is replaced
  by the interpolated one while the score is below the ramp.
\<close>

definition currentTolerance :: "rat \<Rightarrow> rat" where
  "currentTolerance sc =
     (if sc < difficultyRamp
      then (let progress = sc / difficultyRamp
            in initialErrorTolerance - (progress * (initialErrorTolerance - errorTolerance)))
      else errorTolerance)"

text \<open>
  \<^verbatim>\<open>handleSuccessfulPlacement\<close>, lines 398-400: \<^verbatim>\<open>Math.floor(combo / threshold) + 1\<close>
  once the combo has reached the threshold, 1 before.
\<close>

definition multiplier :: "nat \<Rightarrow> nat" where
  "multiplier combo =
     (if combo \<ge> comboThreshold
      then nat \<lfloor>(of_nat combo :: rat) / of_nat comboThreshold\<rfloor> + 1
      else 1)"


subsection \<open>Data model\<close>

datatype vector3 = Vector3 (vec_x: rat) (vec_y: rat) (vec_z: rat)

text \<open>A mesh with a box geometry: its position and the geometry parameters width and depth
  (the height is always \<open>blockHeight\<close>).\<close>

record mesh =
  position :: vector3
  width :: rat
  depth :: rat

record debrisEntity =
  mesh :: mesh
  velocity :: vector3
  rotVelocity :: vector3

text \<open>Of a particle the model keeps the life counter and the opacity of its material
  (1 for a new material); its position and velocity are presentation only.\<close>

record particleEntity =
  life :: rat
  opacity :: rat

datatype axis = AxisX | AxisZ

datatype event = ScoreUpdate nat nat | GameOver nat

record engine =
  stack :: "mesh list"
  debris :: "debrisEntity list"
  particles :: "particleEntity list"
  isGameRunning :: bool
  score :: nat
  axis :: axis
  direction :: rat
  currentBlock :: "mesh option"
  comboCounter :: nat
  events :: "event list"

text \<open>
  Reading a property of \<^verbatim>\<open>undefined\<close> (the top of an empty stack) throws a TypeError.
  A call that throws returns the error together with the state it leaves behind.
\<close>

datatype error = TypeError

type_synonym result = "(error \<times> engine) + engine"

subsection \<open>Set-up and lifecycle\<close>

definition cleanup :: "engine \<Rightarrow> engine" where
  "cleanup s = s\<lparr>stack := [], debris := [], particles := [], currentBlock := None\<rparr>"

definition spawnBaseBlock :: "engine \<Rightarrow> engine" where
  "spawnBaseBlock s =
     (let s1 = cleanup s;
          baseBlock = \<lparr>position = Vector3 0 0 0, width = defaultBlockSize, depth = defaultBlockSize\<rparr>
      in s1\<lparr>stack := stack s1 @ [baseBlock]\<rparr>)"

text \<open>The state the constructor leaves: field initialisers, then \<^verbatim>\<open>spawnBaseBlock\<close>.\<close>

definition constructor :: engine where
  "constructor =
     spawnBaseBlock
       \<lparr>stack = [], debris = [], particles = [], isGameRunning = False, score = 0,
        axis = AxisX, direction = 1, currentBlock = None, comboCounter = 0, events = []\<rparr>"

definition grow :: "nat \<Rightarrow> rat \<Rightarrow> rat" where
  "grow combo extent =
     (if combo \<ge> comboThreshold
      then (if extent < defaultBlockSize then min defaultBlockSize (extent + growthFactor) else extent)
      else extent)"

definition spawnDist :: rat where "spawnDist = 12"

text \<open>Lines 210-223: the new block starts \<open>spawnDist\<close> before the tower top along the
  active axis, one block height above it.\<close>

definition spawnPosition :: "axis \<Rightarrow> mesh \<Rightarrow> vector3" where
  "spawnPosition a prevBlock =
     (let p = position prevBlock
      in case a of
           AxisX \<Rightarrow> Vector3 (vec_x p - spawnDist) (vec_y p + blockHeight) (vec_z p)
         | AxisZ \<Rightarrow> Vector3 (vec_x p) (vec_y p + blockHeight) (vec_z p - spawnDist))"

definition spawnNextBlock :: "engine \<Rightarrow> result" where
  "spawnNextBlock s =
     (if stack s = [] then Inl (TypeError, s)
      else
        let prevBlock = last (stack s);
            width' = grow (comboCounter s) (width prevBlock);
            depth' = grow (comboCounter s) (depth prevBlock)
        in Inr (s\<lparr>currentBlock :=
                    Some \<lparr>position = spawnPosition (axis s) prevBlock,
                          width = width', depth = depth'\<rparr>\<rparr>))"

definition startGame :: "engine \<Rightarrow> result" where
  "startGame s =
     (let s1 = cleanup s;
          s2 = s1\<lparr>isGameRunning := True, score := 0, axis := AxisX, direction := 1,
                  comboCounter := 0\<rparr>;
          s3 = s2\<lparr>events := events s2 @ [ScoreUpdate 0 1]\<rparr>;
          s4 = spawnBaseBlock s3
      in spawnNextBlock s4)"

definition reviveGame :: "engine \<Rightarrow> result" where
  "reviveGame s =
     (if isGameRunning s then Inr s
      else
        let s1 = (if length (debris s) > 0 then s\<lparr>debris := butlast (debris s)\<rparr> else s);
            s2 = s1\<lparr>isGameRunning := True, currentBlock := None\<rparr>
        in spawnNextBlock s2)"

definition dispose :: "engine \<Rightarrow> engine" where
  "dispose s = cleanup s"


subsection \<open>Placement\<close>

text \<open>
  \<^verbatim>\<open>Math.random()\<close> is an input: a call that draws random numbers takes the sequence
  \<open>rnd\<close> of the values drawn during the call, \<open>rnd 0\<close> first. Each of the 20 particles
  of a burst draws four numbers (two for the spread, one for the speed, one for the life).
  Line 332 gives a particle the life \<^verbatim>\<open>1.0 + Math.random() * 0.5\<close>; in doubles that sum is
  rounded and reaches 1.5 for the draws next to 1, while the exact sum stays below it.
\<close>

definition particleCount :: nat where "particleCount = 20"

definition spawnPerfectParticles :: "(nat \<Rightarrow> rat) \<Rightarrow> engine \<Rightarrow> engine" where
  "spawnPerfectParticles rnd s =
     s\<lparr>particles := particles s @
          map (\<lambda>i. \<lparr>life = 1 + rnd (4 * i + 3) * (5 / 10), opacity = 1\<rparr>) [0..<particleCount]\<rparr>"

definition rotVelocityDraw :: "(nat \<Rightarrow> rat) \<Rightarrow> nat \<Rightarrow> vector3" where
  "rotVelocityDraw rnd k =
     Vector3 ((rnd k - 5 / 10) * (3 / 10)) ((rnd (k + 1) - 5 / 10) * (1 / 10))
             ((rnd (k + 2) - 5 / 10) * (3 / 10))"

definition toggle :: "axis \<Rightarrow> axis" where
  "toggle a = (case a of AxisX \<Rightarrow> AxisZ | AxisZ \<Rightarrow> AxisX)"

text \<open>Lines 357-396: the part cut off becomes debris when the offset is not 0 and the
  fragment is more than a sliver along both axes; \<open>pos\<close> is the recentred position of the
  placed block. The result is what is pushed onto \<^verbatim>\<open>this.debris\<close>.\<close>

definition trimDebris ::
    "(nat \<Rightarrow> rat) \<Rightarrow> axis \<Rightarrow> rat \<Rightarrow> rat \<Rightarrow> rat \<Rightarrow> vector3 \<Rightarrow> debrisEntity list" where
  "trimDebris rnd a delta newWidth newDepth pos =
     (let dWidth = (if a = AxisX then \<bar>delta\<bar> else newWidth);
          dDepth = (if a = AxisZ then \<bar>delta\<bar> else newDepth)
      in if delta \<noteq> 0 \<and> dWidth > 5 / 100 \<and> dDepth > 5 / 100
         then
           let dpos = (case a of
                         AxisX \<Rightarrow>
                           Vector3 (if delta > 0
                                    then vec_x pos + (newWidth / 2) + (dWidth / 2)
                                    else vec_x pos - (newWidth / 2) - (dWidth / 2))
                                   (vec_y pos) (vec_z pos)
                       | AxisZ \<Rightarrow>
                           Vector3 (vec_x pos) (vec_y pos)
                                   (if delta > 0
                                    then vec_z pos + (newDepth / 2) + (dDepth / 2)
                                    else vec_z pos - (newDepth / 2) - (dDepth / 2)));
               vx = (if a = AxisX
                     then delta * (3 / 10) + (if delta > 0 then 1 / 10 else - (1 / 10))
                     else (rnd 0 - 5 / 10) * (1 / 10));
               vz = (if a = AxisZ
                     then delta * (3 / 10) + (if delta > 0 then 1 / 10 else - (1 / 10))
                     else (rnd 0 - 5 / 10) * (1 / 10));
               vy = - (1 / 10) - rnd 1 * (3 / 10)
           in [\<lparr>mesh = \<lparr>position = dpos, width = dWidth, depth = dDepth\<rparr>,
                velocity = Vector3 vx vy vz,
                rotVelocity = rotVelocityDraw rnd 2\<rparr>]
         else [])"

text \<open>Lines 349-355: the placed block is recentred half the offset from the tower top.\<close>

definition recentre :: "axis \<Rightarrow> rat \<Rightarrow> vector3 \<Rightarrow> vector3 \<Rightarrow> vector3" where
  "recentre a delta prevPos p =
     (let shift = delta / 2
      in case a of
           AxisX \<Rightarrow> Vector3 (vec_x prevPos + shift) (vec_y p) (vec_z p)
         | AxisZ \<Rightarrow> Vector3 (vec_x p) (vec_y p) (vec_z prevPos + shift))"

definition handleSuccessfulPlacement ::
    "(nat \<Rightarrow> rat) \<Rightarrow> rat \<Rightarrow> rat \<Rightarrow> rat \<Rightarrow> vector3 \<Rightarrow> engine \<Rightarrow> result" where
  "handleSuccessfulPlacement rnd delta newWidth newDepth prevPos s =
     (case currentBlock s of
        None \<Rightarrow> Inr s
      | Some cb \<Rightarrow>
          let pos = recentre (axis s) delta prevPos (position cb);
              cb' = \<lparr>position = pos, width = newWidth, depth = newDepth\<rparr>;
              s1 = s\<lparr>currentBlock := Some cb'\<rparr>;
              s2 = s1\<lparr>debris := debris s1 @ trimDebris rnd (axis s1) delta newWidth newDepth pos\<rparr>;
              m = multiplier (comboCounter s2);
              s3 = s2\<lparr>stack := stack s2 @ [cb']\<rparr>;
              s4 = s3\<lparr>score := score s3 + m\<rparr>;
              s5 = s4\<lparr>events := events s4 @ [ScoreUpdate (score s4) m]\<rparr>;
              s6 = s5\<lparr>axis := toggle (axis s5)\<rparr>
          in spawnNextBlock s6)"

definition handleGameOver :: "(nat \<Rightarrow> rat) \<Rightarrow> engine \<Rightarrow> engine" where
  "handleGameOver rnd s =
     (let s1 = s\<lparr>isGameRunning := False\<rparr>;
          s2 = (case currentBlock s1 of
                  None \<Rightarrow> s1
                | Some cb \<Rightarrow>
                    let dirX = (if axis s1 = AxisX then direction s1 else 0);
                        dirZ = (if axis s1 = AxisZ then direction s1 else 0)
                    in s1\<lparr>debris := debris s1 @
                            [\<lparr>mesh = cb,
                              velocity = Vector3 (dirX * (2 / 10)) (- (5 / 10)) (dirZ * (2 / 10)),
                              rotVelocity = rotVelocityDraw rnd 0\<rparr>]\<rparr>)
      in s2\<lparr>events := events s2 @ [GameOver (score s2)]\<rparr>)"

text \<open>Lines 255-259: the signed offset of the moving block from the tower top along the
  active axis.\<close>

definition axisDelta :: "axis \<Rightarrow> mesh \<Rightarrow> mesh \<Rightarrow> rat" where
  "axisDelta a current prev =
     (case a of
        AxisX \<Rightarrow> vec_x (position current) - vec_x (position prev)
      | AxisZ \<Rightarrow> vec_z (position current) - vec_z (position prev))"

text \<open>Lines 300-304: the strict test on the overlap.\<close>

definition finishPlacement ::
    "(nat \<Rightarrow> rat) \<Rightarrow> rat \<Rightarrow> rat \<Rightarrow> rat \<Rightarrow> rat \<Rightarrow> vector3 \<Rightarrow> engine \<Rightarrow> result" where
  "finishPlacement rnd overlap delta newWidth newDepth prevPos s =
     (if overlap > 0
      then handleSuccessfulPlacement rnd delta newWidth newDepth prevPos s
      else Inr (handleGameOver rnd s))"

text \<open>Lines 269-270: a perfect drop is snapped onto the tower top along the active axis.\<close>

definition snapPosition :: "axis \<Rightarrow> vector3 \<Rightarrow> vector3 \<Rightarrow> vector3" where
  "snapPosition a prevPos currPos =
     (case a of
        AxisX \<Rightarrow> Vector3 (vec_x prevPos) (vec_y currPos) (vec_z currPos)
      | AxisZ \<Rightarrow> Vector3 (vec_x currPos) (vec_y currPos) (vec_z prevPos))"

definition placeBlock :: "(nat \<Rightarrow> rat) \<Rightarrow> engine \<Rightarrow> result" where
  "placeBlock rnd s =
     (case currentBlock s of
        None \<Rightarrow> Inr s
      | Some current \<Rightarrow>
          if \<not> isGameRunning s then Inr s
          else if stack s = [] then Inl (TypeError, s)
          else
            let prev = last (stack s);
                prevPos = position prev;
                currPos = position current;
                prevWidth = width prev;
                prevDepth = depth prev;
                currentWidth = width current;
                currentDepth = depth current;
                delta = axisDelta (axis s) current prev;
                tolerance = currentTolerance (of_nat (score s))
            in if \<bar>delta\<bar> < tolerance
               then
                 let s1 = s\<lparr>currentBlock :=
                             Some (current\<lparr>position := snapPosition (axis s) prevPos currPos\<rparr>)\<rparr>;
                     s2 = s1\<lparr>comboCounter := comboCounter s1 + 1\<rparr>;
                     s3 = spawnPerfectParticles rnd s2;
                     overlap = (case axis s of AxisX \<Rightarrow> currentWidth | AxisZ \<Rightarrow> currentDepth)
                 in finishPlacement (\<lambda>i. rnd (4 * particleCount + i)) overlap 0
                      currentWidth currentDepth prevPos s3
               else
                 let s1 = s\<lparr>comboCounter := 0\<rparr>
                 in (case axis s of
                       AxisX \<Rightarrow>
                         let overlap = prevWidth - \<bar>delta\<bar>
                         in finishPlacement rnd overlap delta overlap currentDepth prevPos s1
                     | AxisZ \<Rightarrow>
                         let overlap = prevDepth - \<bar>delta\<bar>
                         in finishPlacement rnd overlap delta currentWidth overlap prevPos s1))"

subsection \<open>The frame tick\<close>

text \<open>Lines 437-452: the moving block advances by the speed of the current score and turns
  round once it is more than 13 away from the tower top. The sums are exact here and
  rounded in the source.\<close>

definition moveCurrentBlock :: "engine \<Rightarrow> result" where
  "moveCurrentBlock s =
     (case currentBlock s of
        None \<Rightarrow> Inr s
      | Some cb \<Rightarrow>
          if \<not> isGameRunning s then Inr s
          else
            let speed = moveSpeed + (of_nat (score s) * (5 / 1000));
                actualSpeed = min speed (4 / 10);
                p = position cb;
                pos = (case axis s of
                         AxisX \<Rightarrow> Vector3 (vec_x p + actualSpeed * direction s) (vec_y p) (vec_z p)
                       | AxisZ \<Rightarrow> Vector3 (vec_x p) (vec_y p) (vec_z p + actualSpeed * direction s));
                cb' = cb\<lparr>position := pos\<rparr>;
                s1 = s\<lparr>currentBlock := Some cb'\<rparr>
            in if stack s1 = [] then Inl (TypeError, s1)
               else if \<bar>axisDelta (axis s1) cb' (last (stack s1))\<bar> > 13
               then Inr (s1\<lparr>direction := direction s1 * (- 1)\<rparr>)
               else Inr s1)"

text \<open>Both passes over the lists run from the last index down and splice out what is finished; the
  recursion handles the tail of the list (the higher indices) first.\<close>

fun stepDebris :: "debrisEntity list \<Rightarrow> debrisEntity list" where
  "stepDebris [] = []"
| "stepDebris (d # ds) =
     (let rest = stepDebris ds;
          p = position (mesh d);
          v = velocity d;
          p' = Vector3 (vec_x p + vec_x v) (vec_y p + vec_y v) (vec_z p + vec_z v);
          d' = d\<lparr>mesh := (mesh d)\<lparr>position := p'\<rparr>,
                 velocity := Vector3 (vec_x v) (vec_y v - 5 / 100) (vec_z v)\<rparr>
      in if vec_y p' < - 30 then rest else d' # rest)"

definition decayRate :: rat where "decayRate = 5 / 100"

fun stepParticles :: "particleEntity list \<Rightarrow> particleEntity list" where
  "stepParticles [] = []"
| "stepParticles (p # ps) =
     (let rest = stepParticles ps;
          p1 = p\<lparr>life := life p - decayRate\<rparr>;
          p2 = p1\<lparr>opacity := life p1\<rparr>
      in if life p2 \<le> 0 then rest else p2 # rest)"

definition animate :: "engine \<Rightarrow> result" where
  "animate s =
     (case moveCurrentBlock s of
        Inl e \<Rightarrow> Inl e
      | Inr s1 \<Rightarrow>
          Inr (s1\<lparr>debris := stepDebris (debris s1), particles := stepParticles (particles s1)\<rparr>))"

subsection \<open>Runs of calls\<close>

text \<open>
  The public operations and the frame tick, as the calls an embedding page can make.
  A call that throws leaves the engine in the state reached at the throw, and later calls
  act on that state.
\<close>

datatype call = StartGame | ReviveGame | PlaceBlock "nat \<Rightarrow> rat" | Animate | Dispose

definition stateOf :: "result \<Rightarrow> engine" where
  "stateOf r = (case r of Inl (e, s) \<Rightarrow> s | Inr s \<Rightarrow> s)"

definition threw :: "result \<Rightarrow> bool" where
  "threw r = (case r of Inl e \<Rightarrow> True | Inr s \<Rightarrow> False)"

fun exec :: "call \<Rightarrow> engine \<Rightarrow> result" where
  "exec StartGame s = startGame s"
| "exec ReviveGame s = reviveGame s"
| "exec (PlaceBlock rnd) s = placeBlock rnd s"
| "exec Animate s = animate s"
| "exec Dispose s = Inr (dispose s)"

fun run :: "call list \<Rightarrow> engine \<Rightarrow> engine" where
  "run [] s = s"
| "run (c # cs) s = run cs (stateOf (exec c s))"

text \<open>The values \<^verbatim>\<open>Math.random()\<close> can return lie in \<open>[0, 1)\<close>.\<close>

definition unitDraws :: "(nat \<Rightarrow> rat) \<Rightarrow> bool" where
  "unitDraws rnd = (\<forall>i. 0 \<le> rnd i \<and> rnd i < 1)"

fun drawsOk :: "call \<Rightarrow> bool" where
  "drawsOk (PlaceBlock rnd) = unitDraws rnd"
| "drawsOk c = True"

text \<open>The number of entities the engine owns.\<close>

definition entityCount :: "engine \<Rightarrow> nat" where
  "entityCount s =
     length (stack s) + length (debris s) + length (particles s) +
     (case currentBlock s of None \<Rightarrow> 0 | Some b \<Rightarrow> 1)"

subsection \<open>Vocabulary of the properties\<close>

text \<open>The extent of a block along the active axis and across it.\<close>

definition extentAlong :: "axis \<Rightarrow> mesh \<Rightarrow> rat" where
  "extentAlong a b = (case a of AxisX \<Rightarrow> width b | AxisZ \<Rightarrow> depth b)"

definition extentAcross :: "axis \<Rightarrow> mesh \<Rightarrow> rat" where
  "extentAcross a b = (case a of AxisX \<Rightarrow> depth b | AxisZ \<Rightarrow> width b)"

text \<open>A tap is perfect when the offset of the moving block \<open>cur\<close> from the tower top is
  within the current tolerance (line 268).\<close>

definition withinTolerance :: "engine \<Rightarrow> mesh \<Rightarrow> bool" where
  "withinTolerance s cur =
     (\<bar>axisDelta (axis s) cur (last (stack s))\<bar> < currentTolerance (of_nat (score s)))"

text \<open>The value of the local \<^verbatim>\<open>overlap\<close> when line 300 tests it.\<close>

definition computedOverlap :: "engine \<Rightarrow> mesh \<Rightarrow> rat" where
  "computedOverlap s cur =
     (if withinTolerance s cur then extentAlong (axis s) cur
      else extentAlong (axis s) (last (stack s)) - \<bar>axisDelta (axis s) cur (last (stack s))\<bar>)"

definition boundedMesh :: "mesh \<Rightarrow> bool" where
  "boundedMesh b =
     (0 < width b \<and> width b \<le> defaultBlockSize \<and> 0 < depth b \<and> depth b \<le> defaultBlockSize)"

definition wellFormed :: "engine \<Rightarrow> bool" where
  "wellFormed s =
     (list_all boundedMesh (stack s) \<and>
      (case currentBlock s of None \<Rightarrow> True | Some cb \<Rightarrow> boundedMesh cb \<and> stack s \<noteq> []))"

text \<open>The moving block is at least as large as the tower top below it.\<close>

definition coversTop :: "engine \<Rightarrow> bool" where
  "coversTop s =
     (case currentBlock s of
        None \<Rightarrow> True
      | Some cur \<Rightarrow>
          stack s \<noteq> [] \<and> width (last (stack s)) \<le> width cur \<and>
          depth (last (stack s)) \<le> depth cur)"

text \<open>Lines 438-439: the distance the moving block travels in one frame.\<close>

definition tickSpeed :: "nat \<Rightarrow> rat" where
  "tickSpeed sc = min (moveSpeed + (of_nat sc * (5 / 1000))) (4 / 10)"

definition advance :: "axis \<Rightarrow> rat \<Rightarrow> vector3 \<Rightarrow> vector3" where
  "advance a d p =
     (case a of
        AxisX \<Rightarrow> Vector3 (vec_x p + d) (vec_y p) (vec_z p)
      | AxisZ \<Rightarrow> Vector3 (vec_x p) (vec_y p) (vec_z p + d))"

text \<open>A tap after \<open>n\<close> frames.\<close>

definition tap :: "nat \<Rightarrow> (nat \<Rightarrow> rat) \<Rightarrow> call list" where
  "tap n rnd = replicate n Animate @ [PlaceBlock rnd]"

text \<open>The state is one in which \<^verbatim>\<open>placeBlock\<close> takes the perfect branch.\<close>

definition isPerfect :: "engine \<Rightarrow> bool" where
  "isPerfect s =
     (case currentBlock s of
        None \<Rightarrow> False
      | Some cur \<Rightarrow> isGameRunning s \<and> stack s \<noteq> [] \<and> withinTolerance s cur)"

text \<open>A run of frames and taps in which every tap is perfect.\<close>

fun perfectRun :: "call list \<Rightarrow> engine \<Rightarrow> bool" where
  "perfectRun [] s = True"
| "perfectRun (c # cs) s =
     ((case c of PlaceBlock rnd \<Rightarrow> isPerfect s | Animate \<Rightarrow> True | _ \<Rightarrow> False) \<and>
      perfectRun cs (stateOf (exec c s)))"

fun placements :: "call list \<Rightarrow> nat" where
  "placements [] = 0"
| "placements (c # cs) = (case c of PlaceBlock rnd \<Rightarrow> 1 | _ \<Rightarrow> 0) + placements cs"

text \<open>The calls of \<^verbatim>\<open>onScoreUpdate\<close> that \<open>n\<close> perfect taps in a row make, from score
  \<open>sc\<close> and combo \<open>c\<close>.\<close>

fun perfectEvents :: "nat \<Rightarrow> nat \<Rightarrow> nat \<Rightarrow> event list" where
  "perfectEvents 0 sc c = []"
| "perfectEvents (Suc n) sc c =
     ScoreUpdate (sc + multiplier (c + 1)) (multiplier (c + 1)) #
     perfectEvents n (sc + multiplier (c + 1)) (c + 1)"

fun perfectScore :: "nat \<Rightarrow> nat \<Rightarrow> nat \<Rightarrow> nat" where
  "perfectScore 0 sc c = sc"
| "perfectScore (Suc n) sc c = perfectScore n (sc + multiplier (c + 1)) (c + 1)"

text \<open>The engine is playing, with moving block \<open>cur\<close> travelling in the positive direction
  over the tower top \<open>topBlock\<close>.\<close>

definition poised ::
    "engine \<Rightarrow> mesh \<Rightarrow> mesh \<Rightarrow> axis \<Rightarrow> nat \<Rightarrow> nat \<Rightarrow> event list \<Rightarrow> bool" where
  "poised s cur topBlock a sc c ev =
     (isGameRunning s \<and> currentBlock s = Some cur \<and> stack s \<noteq> [] \<and> last (stack s) = topBlock \<and>
      axis s = a \<and> direction s = 1 \<and> score s = sc \<and> comboCounter s = c \<and> events s = ev)"

text \<open>A concrete game: every random draw is \<open>1/2\<close>; the engine is constructed and started,
  and the player taps after 80, 77, 75, 71 and 67 frames.\<close>

definition steady :: "nat \<Rightarrow> rat" where
  "steady = (\<lambda>i. 1 / 2)"

definition started :: engine where
  "started = stateOf (startGame constructor)"

definition fivePerfect :: "call list" where
  "fivePerfect = tap 80 steady @ tap 77 steady @ tap 75 steady @ tap 71 steady @ tap 67 steady"

text \<open>A tower whose top is thinner than the tolerance: the first tap comes after 61 frames
  and leaves a sliver 3/20 wide, the second tap (after 77 frames) is perfect, and 74 frames
  later the moving block is 4/25 away from the sliver.\<close>

definition thinTower :: engine where
  "thinTower = run (StartGame # tap 61 steady @ tap 77 steady @ replicate 74 Animate) constructor"

definition thinBlock :: mesh where
  "thinBlock = \<lparr>position = Vector3 (- (317 / 200)) 3 0, width = 3 / 20, depth = 3\<rparr>"

text \<open>A tower on which a block grows: the first tap (after 61 frames) leaves a sliver
  3/20 wide, the taps after 77 and 75 frames are perfect, and 73 frames later the moving
  block is 9/200 past the tower top, so the next tap is the third perfect one in a row.\<close>

definition growReady :: engine where
  "growReady =
     run (StartGame # tap 61 steady @ tap 77 steady @ tap 75 steady @ replicate 73 Animate)
       constructor"

definition growBlock :: mesh where
  "growBlock = \<lparr>position = Vector3 (- (57 / 40)) 4 (9 / 200), width = 3 / 20, depth = 3\<rparr>"

text \<open>A tap that breaks a combo: after one perfect tap (80 frames) the player taps again
  61 frames later, when the moving block is still 509/200 before the tower top.\<close>

definition comboState :: engine where
  "comboState = run (StartGame # tap 80 steady @ replicate 61 Animate) constructor"

definition comboBlock :: mesh where
  "comboBlock = \<lparr>position = Vector3 0 2 (- (509 / 200)), width = 3, depth = 3\<rparr>"

text \<open>The state after a lost game: the first tap comes at once and misses.\<close>

definition lostGame :: engine where
  "lostGame = run [StartGame, PlaceBlock steady] constructor"

text \<open>The bounds on the life of a particle that is still in \<^verbatim>\<open>this.particles\<close>; the upper
  bound is closed, as the rounded sum of line 332 can be 1.5.\<close>

definition liveParticle :: "particleEntity \<Rightarrow> bool" where
  "liveParticle p = (0 < life p \<and> life p \<le> 3 / 2)"

text \<open>The burst of a perfect tap (lines 311-334).\<close>

definition burst :: "(nat \<Rightarrow> rat) \<Rightarrow> particleEntity list" where
  "burst rnd = map (\<lambda>i. \<lparr>life = 1 + rnd (4 * i + 3) * (5 / 10), opacity = 1\<rparr>) [0..<particleCount]"

text \<open>The state right after the first perfect tap of the concrete game.\<close>

definition firstPerfect :: engine where
  "firstPerfect = run (StartGame # tap 80 steady) constructor"

text \<open>The calls that leave a disposed engine as it is; \<^verbatim>\<open>reviveGame\<close> is one of them when
  the running flag is set.\<close>

fun quietCall :: "bool \<Rightarrow> call \<Rightarrow> bool" where
  "quietCall running StartGame = False"
| "quietCall running ReviveGame = running"
| "quietCall running (PlaceBlock rnd) = True"
| "quietCall running Animate = True"
| "quietCall running Dispose = True"

section \<open>Properties\<close>

lemmas config_defs = defaultBlockSize_def blockHeight_def moveSpeed_def errorTolerance_def
  initialErrorTolerance_def difficultyRamp_def comboThreshold_def growthFactor_def

subsection \<open>The multiplier\<close>

lemma floor_div_threshold: "nat \<lfloor>(of_nat c :: rat) / of_nat comboThreshold\<rfloor> = c div comboThreshold"
proof -
  have "\<lfloor>(of_nat c :: rat) / of_nat comboThreshold\<rfloor> = \<lfloor>(of_int (int c) :: rat) / of_int (int comboThreshold)\<rfloor>"
    by simp
  also have "\<dots> = int c div int comboThreshold"
    by (rule floor_divide_of_int_eq)
  finally show ?thesis
    by (simp add: zdiv_int [symmetric])
qed

lemma multiplier_div:
  "multiplier c = (if comboThreshold \<le> c then c div comboThreshold + 1 else 1)"
  by (simp add: multiplier_def floor_div_threshold)

subsection \<open>The three outcomes of a tap\<close>

lemma spawnNextBlock_Inr:
  "stack s \<noteq> [] \<Longrightarrow>
     spawnNextBlock s =
       Inr (s\<lparr>currentBlock :=
               Some \<lparr>position = spawnPosition (axis s) (last (stack s)),
                     width = grow (comboCounter s) (width (last (stack s))),
                     depth = grow (comboCounter s) (depth (last (stack s)))\<rparr>\<rparr>)"
  by (simp add: spawnNextBlock_def Let_def)

lemma placeBlock_perfect:
  assumes "isGameRunning s" and "currentBlock s = Some cur" and "stack s \<noteq> []"
    and "withinTolerance s cur" and "0 < extentAlong (axis s) cur"
  shows "placeBlock rnd s =
           Inr (s\<lparr>stack := stack s @
                     [\<lparr>position = snapPosition (axis s) (position (last (stack s))) (position cur),
                       width = width cur, depth = depth cur\<rparr>],
                   particles := particles (spawnPerfectParticles rnd s),
                   score := score s + multiplier (comboCounter s + 1),
                   axis := toggle (axis s),
                   currentBlock :=
                     Some \<lparr>position = spawnPosition (toggle (axis s))
                             \<lparr>position = snapPosition (axis s) (position (last (stack s))) (position cur),
                              width = width cur, depth = depth cur\<rparr>,
                           width = grow (comboCounter s + 1) (width cur),
                           depth = grow (comboCounter s + 1) (depth cur)\<rparr>,
                   comboCounter := comboCounter s + 1,
                   events := events s @ [ScoreUpdate (score s + multiplier (comboCounter s + 1))
                                           (multiplier (comboCounter s + 1))]\<rparr>)"
  using assms
  by (cases "axis s")
     (simp_all add: placeBlock_def finishPlacement_def handleSuccessfulPlacement_def
        withinTolerance_def extentAlong_def trimDebris_def recentre_def
        spawnPerfectParticles_def spawnNextBlock_def snapPosition_def spawnPosition_def
        toggle_def Let_def)

lemma placeBlock_trimmed:
  assumes "isGameRunning s" and "currentBlock s = Some cur" and "stack s \<noteq> []"
    and "\<not> withinTolerance s cur"
    and "0 < extentAlong (axis s) (last (stack s)) - \<bar>axisDelta (axis s) cur (last (stack s))\<bar>"
  shows "placeBlock rnd s =
           (let delta = axisDelta (axis s) cur (last (stack s));
                overlap = extentAlong (axis s) (last (stack s)) - \<bar>delta\<bar>;
                newWidth = (case axis s of AxisX \<Rightarrow> overlap | AxisZ \<Rightarrow> width cur);
                newDepth = (case axis s of AxisX \<Rightarrow> depth cur | AxisZ \<Rightarrow> overlap);
                pos = recentre (axis s) delta (position (last (stack s))) (position cur);
                placed = \<lparr>position = pos, width = newWidth, depth = newDepth\<rparr>
            in Inr (s\<lparr>stack := stack s @ [placed],
                      debris := debris s @ trimDebris rnd (axis s) delta newWidth newDepth pos,
                      score := score s + 1,
                      axis := toggle (axis s),
                      currentBlock :=
                        Some \<lparr>position = spawnPosition (toggle (axis s)) placed,
                              width = newWidth, depth = newDepth\<rparr>,
                      comboCounter := 0,
                      events := events s @ [ScoreUpdate (score s + 1) 1]\<rparr>))"
  using assms
  by (cases "axis s")
     (simp_all add: placeBlock_def finishPlacement_def handleSuccessfulPlacement_def
        withinTolerance_def extentAlong_def spawnNextBlock_def spawnPosition_def
        toggle_def Let_def multiplier_def grow_def comboThreshold_def)

lemma placeBlock_miss:
  assumes "isGameRunning s" and "currentBlock s = Some cur" and "stack s \<noteq> []"
    and "computedOverlap s cur \<le> 0"
  shows "placeBlock rnd s =
           Inr (s\<lparr>debris := debris s @
                     [\<lparr>mesh = (if withinTolerance s cur
                               then cur\<lparr>position := snapPosition (axis s) (position (last (stack s))) (position cur)\<rparr>
                               else cur),
                       velocity = Vector3 ((if axis s = AxisX then direction s else 0) * (2 / 10))
                                    (- (5 / 10))
                                    ((if axis s = AxisZ then direction s else 0) * (2 / 10)),
                       rotVelocity = rotVelocityDraw
                                       (if withinTolerance s cur then (\<lambda>i. rnd (4 * particleCount + i)) else rnd) 0\<rparr>],
                   particles := (if withinTolerance s cur then particles (spawnPerfectParticles rnd s) else particles s),
                   isGameRunning := False,
                   currentBlock := Some (if withinTolerance s cur
                               then cur\<lparr>position := snapPosition (axis s) (position (last (stack s))) (position cur)\<rparr>
                               else cur),
                   comboCounter := (if withinTolerance s cur then comboCounter s + 1 else 0),
                   events := events s @ [GameOver (score s)]\<rparr>)"
  using assms
  by (cases "axis s"; cases "withinTolerance s cur")
     (simp_all add: placeBlock_def finishPlacement_def handleGameOver_def computedOverlap_def
        withinTolerance_def extentAlong_def spawnPerfectParticles_def Let_def)

subsection \<open>The invariant of the engine\<close>

lemma grow_bounds:
  "e \<le> grow c e" "0 < e \<Longrightarrow> 0 < grow c e" "e \<le> defaultBlockSize \<Longrightarrow> grow c e \<le> defaultBlockSize"
  by (simp_all add: grow_def config_defs)

lemma boundedMesh_grow:
  "boundedMesh b \<Longrightarrow> boundedMesh \<lparr>position = p, width = grow c (width b), depth = grow c (depth b)\<rparr>"
  by (simp add: boundedMesh_def grow_bounds)

lemma wellFormed_constructor: "wellFormed constructor"
  by (simp add: wellFormed_def constructor_def spawnBaseBlock_def cleanup_def boundedMesh_def config_defs)

lemma wellFormed_spawnNextBlock:
  assumes "list_all boundedMesh (stack s)" and "stack s = [] \<longrightarrow> currentBlock s = None"
  shows "wellFormed (stateOf (spawnNextBlock s))"
proof (cases "stack s = []")
  case True
  with assms show ?thesis
    by (simp add: spawnNextBlock_def stateOf_def wellFormed_def)
next
  case False
  then have "boundedMesh (last (stack s))"
    using assms by (simp add: list_all_iff)
  with False assms show ?thesis
    by (simp add: spawnNextBlock_Inr stateOf_def wellFormed_def boundedMesh_grow)
qed

lemma wellFormed_startGame: "wellFormed (stateOf (startGame s))"
  unfolding startGame_def Let_def
  by (rule wellFormed_spawnNextBlock)
     (simp_all add: spawnBaseBlock_def cleanup_def boundedMesh_def config_defs)

lemma wellFormed_reviveGame:
  assumes "wellFormed s"
  shows "wellFormed (stateOf (reviveGame s))"
proof (cases "isGameRunning s")
  case True
  with assms show ?thesis by (simp add: reviveGame_def stateOf_def)
next
  case False
  from assms have "list_all boundedMesh (stack s)" by (simp add: wellFormed_def)
  with False show ?thesis
    unfolding reviveGame_def Let_def
    by (auto intro!: wellFormed_spawnNextBlock)
qed

lemma wellFormed_dispose: "wellFormed (dispose s)"
  by (simp add: dispose_def wellFormed_def cleanup_def)

lemma wellFormed_animate:
  assumes "wellFormed s"
  shows "wellFormed (stateOf (animate s))"
  using assms
  by (auto simp: animate_def moveCurrentBlock_def stateOf_def wellFormed_def boundedMesh_def Let_def
      split: option.splits)

lemma wellFormed_placeBlock:
  assumes wf: "wellFormed s"
  shows "wellFormed (stateOf (placeBlock rnd s))"
proof (cases "isGameRunning s \<and> currentBlock s \<noteq> None")
  case False
  then have "placeBlock rnd s = Inr s"
    by (auto simp: placeBlock_def split: option.splits)
  with wf show ?thesis by (simp add: stateOf_def)
next
  case True
  then obtain cur where run: "isGameRunning s" and cur: "currentBlock s = Some cur" by auto
  from wf cur have st: "stack s \<noteq> []" and bc: "boundedMesh cur"
    and bs: "list_all boundedMesh (stack s)"
    by (simp_all add: wellFormed_def)
  from st bs have bl: "boundedMesh (last (stack s))" by (simp add: list_all_iff)
  show ?thesis
  proof (cases "withinTolerance s cur")
    case True
    from bc have "0 < extentAlong (axis s) cur"
      by (simp add: boundedMesh_def extentAlong_def split: axis.splits)
    from placeBlock_perfect [OF run cur st True this, of rnd] bc bs show ?thesis
      by (simp add: stateOf_def wellFormed_def boundedMesh_grow)
         (simp add: boundedMesh_def)
  next
    case False
    show ?thesis
    proof (cases "0 < extentAlong (axis s) (last (stack s)) - \<bar>axisDelta (axis s) cur (last (stack s))\<bar>")
      case True
      from placeBlock_trimmed [OF run cur st False True, of rnd] bc bs bl True show ?thesis
        by (cases "axis s")
           (auto simp: stateOf_def wellFormed_def Let_def boundedMesh_def extentAlong_def)
    next
      case nonpos: False
      with False have "computedOverlap s cur \<le> 0" by (simp add: computedOverlap_def)
      from placeBlock_miss [OF run cur st this, of rnd] False bc bs st show ?thesis
        by (simp add: stateOf_def wellFormed_def)
    qed
  qed
qed

lemma stateOf_simps: "stateOf (Inr s) = s" "stateOf (Inl (e, s)) = s"
  by (simp_all add: stateOf_def)

lemma wellFormed_exec: "wellFormed s \<Longrightarrow> wellFormed (stateOf (exec c s))"
  by (cases c)
     (simp_all add: wellFormed_startGame wellFormed_reviveGame wellFormed_placeBlock
        wellFormed_animate wellFormed_dispose stateOf_simps)

lemma wellFormed_run: "wellFormed s \<Longrightarrow> wellFormed (run cs s)"
  by (induction cs arbitrary: s) (simp_all add: wellFormed_exec)

lemma run_append: "run (xs @ ys) s = run ys (run xs s)"
  by (induction xs arbitrary: s) simp_all

subsection \<open>The moving block and the tower top\<close>

lemma coversTop_spawnNextBlock:
  assumes "stack s = [] \<longrightarrow> currentBlock s = None"
  shows "coversTop (stateOf (spawnNextBlock s))"
proof (cases "stack s = []")
  case True
  with assms show ?thesis
    by (simp add: spawnNextBlock_def stateOf_simps coversTop_def)
next
  case False
  then show ?thesis
    by (simp add: spawnNextBlock_Inr stateOf_simps coversTop_def grow_bounds)
qed

lemma coversTop_startGame: "coversTop (stateOf (startGame s))"
  unfolding startGame_def Let_def
  by (rule coversTop_spawnNextBlock) (simp add: spawnBaseBlock_def cleanup_def)

lemma coversTop_reviveGame:
  assumes "coversTop s"
  shows "coversTop (stateOf (reviveGame s))"
proof (cases "isGameRunning s")
  case True
  with assms show ?thesis by (simp add: reviveGame_def stateOf_simps)
next
  case False
  then show ?thesis
    unfolding reviveGame_def Let_def
    by (auto intro!: coversTop_spawnNextBlock)
qed

lemma coversTop_animate:
  assumes "coversTop s"
  shows "coversTop (stateOf (animate s))"
  using assms
  by (auto simp: animate_def moveCurrentBlock_def stateOf_def coversTop_def Let_def
      split: option.splits)

lemma coversTop_placeBlock:
  assumes wf: "wellFormed s" and ct: "coversTop s"
  shows "coversTop (stateOf (placeBlock rnd s))"
proof (cases "isGameRunning s \<and> currentBlock s \<noteq> None")
  case False
  then have "placeBlock rnd s = Inr s"
    by (auto simp: placeBlock_def split: option.splits)
  with ct show ?thesis by (simp add: stateOf_simps)
next
  case True
  then obtain cur where run: "isGameRunning s" and cur: "currentBlock s = Some cur" by auto
  from wf cur have st: "stack s \<noteq> []" and bc: "boundedMesh cur"
    by (simp_all add: wellFormed_def)
  show ?thesis
  proof (cases "withinTolerance s cur")
    case True
    from bc have "0 < extentAlong (axis s) cur"
      by (simp add: boundedMesh_def extentAlong_def split: axis.splits)
    from placeBlock_perfect [OF run cur st True this, of rnd] show ?thesis
      by (simp add: stateOf_simps coversTop_def grow_bounds)
  next
    case False
    show ?thesis
    proof (cases "0 < extentAlong (axis s) (last (stack s)) - \<bar>axisDelta (axis s) cur (last (stack s))\<bar>")
      case True
      from placeBlock_trimmed [OF run cur st False True, of rnd] show ?thesis
        by (simp add: stateOf_simps coversTop_def Let_def)
    next
      case nonpos: False
      with False have "computedOverlap s cur \<le> 0" by (simp add: computedOverlap_def)
      from placeBlock_miss [OF run cur st this, of rnd] False ct cur show ?thesis
        by (simp add: stateOf_simps coversTop_def)
    qed
  qed
qed

lemma coversTop_exec: "wellFormed s \<Longrightarrow> coversTop s \<Longrightarrow> coversTop (stateOf (exec c s))"
  by (cases c)
     (simp_all add: coversTop_startGame coversTop_reviveGame coversTop_placeBlock
        coversTop_animate stateOf_simps, simp add: coversTop_def dispose_def cleanup_def)

lemma coversTop_run: "wellFormed s \<Longrightarrow> coversTop s \<Longrightarrow> coversTop (run cs s)"
  by (induction cs arbitrary: s) (simp_all add: coversTop_exec wellFormed_exec)

lemma coversTop_constructor: "coversTop constructor"
  by (simp add: coversTop_def constructor_def spawnBaseBlock_def cleanup_def)

subsection \<open>Frames\<close>

lemma advance_zero: "advance a 0 p = p"
  by (cases p; cases a) (simp_all add: advance_def)

lemma advance_advance: "advance a d (advance a e p) = advance a (e + d) p"
  by (cases a) (simp_all add: advance_def add.assoc)

lemma axisDelta_advance:
  "axisDelta a (cur\<lparr>position := advance a d (position cur)\<rparr>) b = axisDelta a cur b + d"
  by (cases a) (simp_all add: axisDelta_def advance_def)

lemma animate_glide:
  assumes "isGameRunning s" and "currentBlock s = Some cur" and "stack s \<noteq> []"
    and "\<bar>axisDelta (axis s) cur (last (stack s)) + tickSpeed (score s) * direction s\<bar> \<le> 13"
  shows "animate s =
           Inr (s\<lparr>debris := stepDebris (debris s), particles := stepParticles (particles s),
                   currentBlock :=
                     Some (cur\<lparr>position := advance (axis s) (tickSpeed (score s) * direction s)
                                               (position cur)\<rparr>)\<rparr>)"
  using assms
  by (cases "axis s")
     (simp_all add: animate_def moveCurrentBlock_def tickSpeed_def advance_def axisDelta_def Let_def)

lemma animate_frame:
  assumes "currentBlock s \<noteq> None \<longrightarrow> stack s \<noteq> []"
  shows "\<exists>s'. animate s = Inr s' \<and> stack s' = stack s \<and> isGameRunning s' = isGameRunning s \<and>
           score s' = score s \<and> axis s' = axis s \<and> comboCounter s' = comboCounter s \<and>
           events s' = events s \<and> debris s' = stepDebris (debris s) \<and>
           particles s' = stepParticles (particles s) \<and>
           map_option width (currentBlock s') = map_option width (currentBlock s) \<and>
           map_option depth (currentBlock s') = map_option depth (currentBlock s)"
  using assms
  by (auto simp: animate_def moveCurrentBlock_def Let_def split: option.splits)

lemma run_glide:
  assumes "isGameRunning s" and "currentBlock s = Some cur" and "stack s \<noteq> []"
    and "direction s = 1"
    and "- 13 \<le> axisDelta (axis s) cur (last (stack s))"
    and "axisDelta (axis s) cur (last (stack s)) + of_nat n * tickSpeed (score s) \<le> 13"
  shows "run (replicate n Animate) s =
           s\<lparr>debris := (stepDebris ^^ n) (debris s), particles := (stepParticles ^^ n) (particles s),
             currentBlock :=
               Some (cur\<lparr>position := advance (axis s) (of_nat n * tickSpeed (score s))
                                         (position cur)\<rparr>)\<rparr>"
  using assms
proof (induction n arbitrary: s cur)
  case 0
  then show ?case by (simp add: advance_zero)
next
  case (Suc n)
  have v: "0 \<le> tickSpeed (score s)"
    by (simp add: tickSpeed_def moveSpeed_def)
  let ?d = "axisDelta (axis s) cur (last (stack s))"
  let ?v = "tickSpeed (score s)"
  have le: "?d + ?v \<le> ?d + of_nat (Suc n) * ?v"
    using v by (simp add: algebra_simps)
  have step1: "\<bar>?d + ?v * direction s\<bar> \<le> 13"
    using Suc.prems v le by (simp add: abs_le_iff)
  let ?cur1 = "cur\<lparr>position := advance (axis s) ?v (position cur)\<rparr>"
  let ?s1 = "s\<lparr>debris := stepDebris (debris s), particles := stepParticles (particles s),
               currentBlock := Some ?cur1\<rparr>"
  have a: "animate s = Inr ?s1"
    using animate_glide [OF Suc.prems(1,2,3) step1] Suc.prems(4) by simp
  have d1: "axisDelta (axis ?s1) ?cur1 (last (stack ?s1)) = ?d + ?v"
    by (simp add: axisDelta_advance)
  have "run (replicate n Animate) ?s1 =
          ?s1\<lparr>debris := (stepDebris ^^ n) (debris ?s1),
               particles := (stepParticles ^^ n) (particles ?s1),
               currentBlock :=
                 Some (?cur1\<lparr>position := advance (axis ?s1) (of_nat n * tickSpeed (score ?s1))
                                             (position ?cur1)\<rparr>)\<rparr>"
  proof (rule Suc.IH)
    show "isGameRunning ?s1" using Suc.prems by simp
    show "currentBlock ?s1 = Some ?cur1" by simp
    show "stack ?s1 \<noteq> []" using Suc.prems by simp
    show "direction ?s1 = 1" using Suc.prems by simp
    show "- 13 \<le> axisDelta (axis ?s1) ?cur1 (last (stack ?s1))"
      unfolding d1 using Suc.prems v by simp
    show "axisDelta (axis ?s1) ?cur1 (last (stack ?s1)) + of_nat n * tickSpeed (score ?s1) \<le> 13"
      unfolding d1 using Suc.prems by (simp add: algebra_simps)
  qed
  then show ?case
    by (simp add: a stateOf_simps funpow_swap1 advance_advance algebra_simps)
qed

subsection \<open>Runs\<close>

lemma perfectRun_append:
  "perfectRun (xs @ ys) s = (perfectRun xs s \<and> perfectRun ys (run xs s))"
  by (induction xs arbitrary: s) simp_all

lemma perfectRun_frames: "perfectRun (replicate n Animate) s"
  by (induction n arbitrary: s) simp_all

lemma placements_append: "placements (xs @ ys) = placements xs + placements ys"
  by (induction xs) simp_all

lemma placements_frames: "placements (replicate n Animate) = 0"
  by (induction n) simp_all

lemma placements_tap: "placements (tap n rnd) = 1"
  by (simp add: tap_def placements_append placements_frames)

lemma run_tap: "run (tap n rnd) s = stateOf (placeBlock rnd (run (replicate n Animate) s))"
  by (simp add: tap_def run_append)

lemma perfectRun_tap: "perfectRun (tap n rnd) s = isPerfect (run (replicate n Animate) s)"
  by (simp add: tap_def perfectRun_append perfectRun_frames)

text \<open>A tap after \<open>n\<close> frames of travel that lands within the tolerance.\<close>

lemma perfect_stage:
  assumes p: "poised s cur topBlock a sc c ev"
    and lo: "- 13 \<le> axisDelta a cur topBlock"
    and hi: "axisDelta a cur topBlock + of_nat n * tickSpeed sc \<le> 13"
    and tol: "\<bar>axisDelta a cur topBlock + of_nat n * tickSpeed sc\<bar> < currentTolerance (of_nat sc)"
    and ext: "0 < extentAlong a cur"
  shows "poised (run (tap n rnd) s)
           \<lparr>position = spawnPosition (toggle a)
              \<lparr>position = snapPosition a (position topBlock)
                             (advance a (of_nat n * tickSpeed sc) (position cur)),
               width = width cur, depth = depth cur\<rparr>,
            width = grow (c + 1) (width cur), depth = grow (c + 1) (depth cur)\<rparr>
           \<lparr>position = snapPosition a (position topBlock)
                          (advance a (of_nat n * tickSpeed sc) (position cur)),
            width = width cur, depth = depth cur\<rparr>
           (toggle a) (sc + multiplier (c + 1)) (c + 1)
           (ev @ [ScoreUpdate (sc + multiplier (c + 1)) (multiplier (c + 1))]) \<and>
         perfectRun (tap n rnd) s \<and>
         particles (run (tap n rnd) s) =
           (stepParticles ^^ n) (particles s) @
           map (\<lambda>i. \<lparr>life = 1 + rnd (4 * i + 3) * (5 / 10), opacity = 1\<rparr>) [0..<particleCount]"
proof -
  let ?cur = "cur\<lparr>position := advance a (of_nat n * tickSpeed sc) (position cur)\<rparr>"
  let ?t = "s\<lparr>debris := (stepDebris ^^ n) (debris s), particles := (stepParticles ^^ n) (particles s),
              currentBlock := Some ?cur\<rparr>"
  from p have f: "isGameRunning s" "currentBlock s = Some cur" "stack s \<noteq> []"
    "last (stack s) = topBlock" "axis s = a" "direction s = 1" "score s = sc"
    "comboCounter s = c" "events s = ev"
    by (simp_all add: poised_def)
  have g: "run (replicate n Animate) s = ?t"
    using run_glide [OF f(1,2,3,6), of n] lo hi f by simp
  have wt: "withinTolerance ?t ?cur"
    using tol f by (simp add: withinTolerance_def axisDelta_advance)
  have ex: "0 < extentAlong (axis ?t) ?cur"
    using ext f by (simp add: extentAlong_def split: axis.splits)
  have pl: "placeBlock rnd ?t = Inr (?t\<lparr>stack := stack ?t @
                     [\<lparr>position = snapPosition (axis ?t) (position (last (stack ?t))) (position ?cur),
                       width = width ?cur, depth = depth ?cur\<rparr>],
                   particles := particles (spawnPerfectParticles rnd ?t),
                   score := score ?t + multiplier (comboCounter ?t + 1),
                   axis := toggle (axis ?t),
                   currentBlock :=
                     Some \<lparr>position = spawnPosition (toggle (axis ?t))
                             \<lparr>position = snapPosition (axis ?t) (position (last (stack ?t))) (position ?cur),
                              width = width ?cur, depth = depth ?cur\<rparr>,
                           width = grow (comboCounter ?t + 1) (width ?cur),
                           depth = grow (comboCounter ?t + 1) (depth ?cur)\<rparr>,
                   comboCounter := comboCounter ?t + 1,
                   events := events ?t @ [ScoreUpdate (score ?t + multiplier (comboCounter ?t + 1))
                                           (multiplier (comboCounter ?t + 1))]\<rparr>)"
    by (rule placeBlock_perfect [OF _ _ _ wt ex]) (simp_all add: f)
  have "isPerfect ?t"
    using wt f by (simp add: isPerfect_def)
  then show ?thesis
    using f by (simp add: run_tap perfectRun_tap g pl stateOf_simps poised_def
        spawnPerfectParticles_def)
qed

subsection \<open>Five perfect taps\<close>

lemma started_poised:
  "poised started \<lparr>position = Vector3 (- 12) 1 0, width = 3, depth = 3\<rparr>
     \<lparr>position = Vector3 0 0 0, width = 3, depth = 3\<rparr> AxisX 0 0 [ScoreUpdate 0 1] \<and>
   particles started = []"
  by (simp add: started_def startGame_def spawnBaseBlock_def cleanup_def constructor_def
      spawnNextBlock_def spawnPosition_def grow_def poised_def stateOf_simps Let_def
      config_defs spawnDist_def)

lemmas stage_simps = tickSpeed_def currentTolerance_def axisDelta_def extentAlong_def
  advance_def snapPosition_def spawnPosition_def toggle_def grow_def multiplier_div
  spawnDist_def config_defs Let_def

lemma fivePerfect_chain:
  "poised (run fivePerfect started) \<lparr>position = Vector3 0 6 (- 12), width = 3, depth = 3\<rparr>
     \<lparr>position = Vector3 0 5 0, width = 3, depth = 3\<rparr> AxisZ 8 5
     [ScoreUpdate 0 1, ScoreUpdate 1 1, ScoreUpdate 2 1, ScoreUpdate 4 2, ScoreUpdate 6 2,
      ScoreUpdate 8 2] \<and>
   perfectRun fivePerfect started"
proof -
  let ?s1 = "run (tap 80 steady) started"
  let ?s2 = "run (tap 77 steady) ?s1"
  let ?s3 = "run (tap 75 steady) ?s2"
  let ?s4 = "run (tap 71 steady) ?s3"
  let ?s5 = "run (tap 67 steady) ?s4"
  have p0: "poised started \<lparr>position = Vector3 (- 12) 1 0, width = 3, depth = 3\<rparr>
     \<lparr>position = Vector3 0 0 0, width = 3, depth = 3\<rparr> AxisX 0 0 [ScoreUpdate 0 1]"
    using started_poised by simp
  have t1: "poised ?s1 \<lparr>position = Vector3 0 2 (- 12), width = 3, depth = 3\<rparr>
     \<lparr>position = Vector3 0 1 0, width = 3, depth = 3\<rparr> AxisZ 1 1
     [ScoreUpdate 0 1, ScoreUpdate 1 1] \<and> perfectRun (tap 80 steady) started"
    using perfect_stage [OF p0, of 80 steady] by (simp add: stage_simps del: One_nat_def)
  have t2: "poised ?s2 \<lparr>position = Vector3 (- 12) 3 0, width = 3, depth = 3\<rparr>
     \<lparr>position = Vector3 0 2 0, width = 3, depth = 3\<rparr> AxisX 2 2
     [ScoreUpdate 0 1, ScoreUpdate 1 1, ScoreUpdate 2 1] \<and> perfectRun (tap 77 steady) ?s1"
    using perfect_stage [OF conjunct1 [OF t1], of 77 steady] by (simp add: stage_simps del: One_nat_def)
  have t3: "poised ?s3 \<lparr>position = Vector3 0 4 (- 12), width = 3, depth = 3\<rparr>
     \<lparr>position = Vector3 0 3 0, width = 3, depth = 3\<rparr> AxisZ 4 3
     [ScoreUpdate 0 1, ScoreUpdate 1 1, ScoreUpdate 2 1, ScoreUpdate 4 2] \<and>
     perfectRun (tap 75 steady) ?s2"
    using perfect_stage [OF conjunct1 [OF t2], of 75 steady] by (simp add: stage_simps del: One_nat_def)
  have t4: "poised ?s4 \<lparr>position = Vector3 (- 12) 5 0, width = 3, depth = 3\<rparr>
     \<lparr>position = Vector3 0 4 0, width = 3, depth = 3\<rparr> AxisX 6 4
     [ScoreUpdate 0 1, ScoreUpdate 1 1, ScoreUpdate 2 1, ScoreUpdate 4 2, ScoreUpdate 6 2] \<and>
     perfectRun (tap 71 steady) ?s3"
    using perfect_stage [OF conjunct1 [OF t3], of 71 steady] by (simp add: stage_simps del: One_nat_def)
  have t5: "poised ?s5 \<lparr>position = Vector3 0 6 (- 12), width = 3, depth = 3\<rparr>
     \<lparr>position = Vector3 0 5 0, width = 3, depth = 3\<rparr> AxisZ 8 5
     [ScoreUpdate 0 1, ScoreUpdate 1 1, ScoreUpdate 2 1, ScoreUpdate 4 2, ScoreUpdate 6 2,
      ScoreUpdate 8 2] \<and>
     perfectRun (tap 67 steady) ?s4"
    using perfect_stage [OF conjunct1 [OF t4], of 67 steady] by (simp add: stage_simps del: One_nat_def)
  from t1 t2 t3 t4 t5 show ?thesis
    by (simp add: fivePerfect_def run_append perfectRun_append)
qed

lemma placements_fivePerfect: "placements fivePerfect = 5"
  by (simp add: fivePerfect_def placements_append placements_tap)

subsection \<open>Any run of perfect taps\<close>

lemma perfect_run_totals:
  assumes "wellFormed s" and "isGameRunning s" and "currentBlock s \<noteq> None" and "perfectRun cs s"
  shows "comboCounter (run cs s) = comboCounter s + placements cs \<and>
         score (run cs s) = perfectScore (placements cs) (score s) (comboCounter s) \<and>
         events (run cs s) = events s @ perfectEvents (placements cs) (score s) (comboCounter s)"
  using assms
proof (induction cs arbitrary: s)
  case Nil
  then show ?case by simp
next
  case (Cons c cs)
  from Cons.prems obtain cur where cur: "currentBlock s = Some cur" by auto
  from Cons.prems cur have st: "stack s \<noteq> []" and bc: "boundedMesh cur"
    by (simp_all add: wellFormed_def)
  let ?s' = "stateOf (exec c s)"
  have wf': "wellFormed ?s'"
    using Cons.prems(1) by (rule wellFormed_exec)
  have rest: "perfectRun cs ?s'"
    using Cons.prems(4) by simp
  show ?case
  proof (cases c)
    case Animate
    from animate_frame [of s] st obtain s' where a: "animate s = Inr s'"
      and fr: "isGameRunning s' = isGameRunning s" "score s' = score s"
        "comboCounter s' = comboCounter s" "events s' = events s"
        "map_option width (currentBlock s') = map_option width (currentBlock s)"
      by auto
    from a Animate have eq: "?s' = s'" by (simp add: stateOf_simps)
    from fr(5) cur have "currentBlock s' \<noteq> None" by auto
    with Cons.IH [of s'] wf' rest eq fr Cons.prems(2) Animate show ?thesis
      by simp
  next
    case (PlaceBlock rnd)
    with Cons.prems(4) cur have wt: "withinTolerance s cur"
      by (simp add: isPerfect_def)
    from bc have ex: "0 < extentAlong (axis s) cur"
      by (simp add: boundedMesh_def extentAlong_def split: axis.splits)
    note pl = placeBlock_perfect [OF Cons.prems(2) cur st wt ex, of rnd]
    have f: "isGameRunning ?s'" "currentBlock ?s' \<noteq> None"
      "comboCounter ?s' = comboCounter s + 1"
      "score ?s' = score s + multiplier (comboCounter s + 1)"
      "events ?s' = events s @ [ScoreUpdate (score s + multiplier (comboCounter s + 1))
                                  (multiplier (comboCounter s + 1))]"
      using Cons.prems(2) by (simp_all add: PlaceBlock pl stateOf_simps)
    from Cons.IH [OF wf' f(1) f(2) rest] f PlaceBlock show ?thesis
      by simp
  next
    case StartGame
    with Cons.prems(4) show ?thesis by simp
  next
    case ReviveGame
    with Cons.prems(4) show ?thesis by simp
  next
    case Dispose
    with Cons.prems(4) show ?thesis by simp
  qed
qed

lemma perfectEvents_numeral:
  "perfectEvents (numeral k) sc c =
     ScoreUpdate (sc + multiplier (c + 1)) (multiplier (c + 1)) #
     perfectEvents (pred_numeral k) (sc + multiplier (c + 1)) (c + 1)"
  by (simp add: numeral_eq_Suc)

lemma perfectScore_numeral:
  "perfectScore (numeral k) sc c = perfectScore (pred_numeral k) (sc + multiplier (c + 1)) (c + 1)"
  by (simp add: numeral_eq_Suc)

lemma five_values:
  "perfectEvents 5 0 0 =
     [ScoreUpdate 1 1, ScoreUpdate 2 1, ScoreUpdate 4 2, ScoreUpdate 6 2, ScoreUpdate 8 2]"
  "perfectScore 5 0 0 = 8"
  by (simp_all add: perfectEvents_numeral perfectScore_numeral multiplier_div comboThreshold_def)

text \<open>A tap after \<open>n\<close> frames of travel that is outside the tolerance and still overlaps.\<close>

lemma trimmed_stage:
  assumes p: "poised s cur topBlock a sc c ev"
    and lo: "- 13 \<le> axisDelta a cur topBlock"
    and hi: "axisDelta a cur topBlock + of_nat n * tickSpeed sc \<le> 13"
    and tol: "\<not> \<bar>axisDelta a cur topBlock + of_nat n * tickSpeed sc\<bar> < currentTolerance (of_nat sc)"
    and ov: "0 < extentAlong a topBlock - \<bar>axisDelta a cur topBlock + of_nat n * tickSpeed sc\<bar>"
  shows "poised (run (tap n rnd) s)
           \<lparr>position = spawnPosition (toggle a)
              \<lparr>position = recentre a (axisDelta a cur topBlock + of_nat n * tickSpeed sc)
                             (position topBlock) (advance a (of_nat n * tickSpeed sc) (position cur)),
               width = (case a of AxisX \<Rightarrow> extentAlong a topBlock -
                                   \<bar>axisDelta a cur topBlock + of_nat n * tickSpeed sc\<bar>
                        | AxisZ \<Rightarrow> width cur),
               depth = (case a of AxisX \<Rightarrow> depth cur
                        | AxisZ \<Rightarrow> extentAlong a topBlock -
                                   \<bar>axisDelta a cur topBlock + of_nat n * tickSpeed sc\<bar>)\<rparr>,
            width = (case a of AxisX \<Rightarrow> extentAlong a topBlock -
                                   \<bar>axisDelta a cur topBlock + of_nat n * tickSpeed sc\<bar>
                        | AxisZ \<Rightarrow> width cur),
            depth = (case a of AxisX \<Rightarrow> depth cur
                        | AxisZ \<Rightarrow> extentAlong a topBlock -
                                   \<bar>axisDelta a cur topBlock + of_nat n * tickSpeed sc\<bar>)\<rparr>
           \<lparr>position = recentre a (axisDelta a cur topBlock + of_nat n * tickSpeed sc)
                          (position topBlock) (advance a (of_nat n * tickSpeed sc) (position cur)),
            width = (case a of AxisX \<Rightarrow> extentAlong a topBlock -
                                   \<bar>axisDelta a cur topBlock + of_nat n * tickSpeed sc\<bar>
                        | AxisZ \<Rightarrow> width cur),
            depth = (case a of AxisX \<Rightarrow> depth cur
                        | AxisZ \<Rightarrow> extentAlong a topBlock -
                                   \<bar>axisDelta a cur topBlock + of_nat n * tickSpeed sc\<bar>)\<rparr>
           (toggle a) (sc + 1) 0 (ev @ [ScoreUpdate (sc + 1) 1])"
proof -
  let ?cur = "cur\<lparr>position := advance a (of_nat n * tickSpeed sc) (position cur)\<rparr>"
  let ?t = "s\<lparr>debris := (stepDebris ^^ n) (debris s), particles := (stepParticles ^^ n) (particles s),
              currentBlock := Some ?cur\<rparr>"
  from p have f: "isGameRunning s" "currentBlock s = Some cur" "stack s \<noteq> []"
    "last (stack s) = topBlock" "axis s = a" "direction s = 1" "score s = sc"
    "comboCounter s = c" "events s = ev"
    by (simp_all add: poised_def)
  have g: "run (replicate n Animate) s = ?t"
    using run_glide [OF f(1,2,3,6), of n] lo hi f by simp
  have wt: "\<not> withinTolerance ?t ?cur"
    using tol f by (simp add: withinTolerance_def axisDelta_advance)
  have ex: "0 < extentAlong (axis ?t) (last (stack ?t)) - \<bar>axisDelta (axis ?t) ?cur (last (stack ?t))\<bar>"
    using ov f by (simp add: axisDelta_advance)
  have run: "isGameRunning ?t" and cb: "currentBlock ?t = Some ?cur" and st: "stack ?t \<noteq> []"
    using f by simp_all
  note pl = placeBlock_trimmed [OF run cb st wt ex, of rnd]
  show ?thesis
    using f pl
    by (cases a) (simp_all add: run_tap g stateOf_simps poised_def Let_def axisDelta_advance)
qed

subsection \<open>Concrete towers\<close>

lemma sliver_poised:
  "poised (run (tap 61 steady) started)
     \<lparr>position = Vector3 (- (57 / 40)) 2 (- 12), width = 3 / 20, depth = 3\<rparr>
     \<lparr>position = Vector3 (- (57 / 40)) 1 0, width = 3 / 20, depth = 3\<rparr> AxisZ 1 0
     [ScoreUpdate 0 1, ScoreUpdate 1 1]"
proof -
  have p0: "poised started \<lparr>position = Vector3 (- 12) 1 0, width = 3, depth = 3\<rparr>
     \<lparr>position = Vector3 0 0 0, width = 3, depth = 3\<rparr> AxisX 0 0 [ScoreUpdate 0 1]"
    using started_poised by simp
  show ?thesis
    using trimmed_stage [OF p0, of 61 steady]
    by (simp add: stage_simps recentre_def del: One_nat_def)
qed

lemma thinTower_facts:
  "poised thinTower thinBlock \<lparr>position = Vector3 (- (57 / 40)) 2 0, width = 3 / 20, depth = 3\<rparr>
     AxisX 2 1 [ScoreUpdate 0 1, ScoreUpdate 1 1, ScoreUpdate 2 1] \<and>
   poised (stateOf (placeBlock steady thinTower))
     \<lparr>position = Vector3 (- (57 / 40)) 4 (- 12), width = 3 / 20, depth = 3\<rparr>
     \<lparr>position = Vector3 (- (57 / 40)) 3 0, width = 3 / 20, depth = 3\<rparr>
     AxisZ 3 2 [ScoreUpdate 0 1, ScoreUpdate 1 1, ScoreUpdate 2 1, ScoreUpdate 3 1]"
proof -
  let ?s1 = "run (tap 61 steady) started"
  let ?s2 = "run (tap 77 steady) ?s1"
  note t1 = sliver_poised
  have t2: "poised ?s2 \<lparr>position = Vector3 (- (537 / 40)) 3 0, width = 3 / 20, depth = 3\<rparr>
     \<lparr>position = Vector3 (- (57 / 40)) 2 0, width = 3 / 20, depth = 3\<rparr> AxisX 2 1
     [ScoreUpdate 0 1, ScoreUpdate 1 1, ScoreUpdate 2 1]"
    using perfect_stage [OF t1, of 77 steady]
    by (simp add: stage_simps del: One_nat_def)
  from t2 have f: "isGameRunning ?s2"
    "currentBlock ?s2 = Some \<lparr>position = Vector3 (- (537 / 40)) 3 0, width = 3 / 20, depth = 3\<rparr>"
    "stack ?s2 \<noteq> []"
    "last (stack ?s2) = \<lparr>position = Vector3 (- (57 / 40)) 2 0, width = 3 / 20, depth = 3\<rparr>"
    "axis ?s2 = AxisX" "direction ?s2 = 1" "score ?s2 = 2" "comboCounter ?s2 = 1"
    "events ?s2 = [ScoreUpdate 0 1, ScoreUpdate 1 1, ScoreUpdate 2 1]"
    by (simp_all add: poised_def)
  have tt: "thinTower = run (replicate 74 Animate) ?s2"
    by (simp add: thinTower_def started_def run_append)
  have g: "run (replicate 74 Animate) ?s2 =
             ?s2\<lparr>debris := (stepDebris ^^ 74) (debris ?s2),
                  particles := (stepParticles ^^ 74) (particles ?s2),
                  currentBlock := Some thinBlock\<rparr>"
    using run_glide [OF f(1,2,3,6), of 74] f
    by (simp add: stage_simps thinBlock_def)
  have pre: "poised thinTower thinBlock
     \<lparr>position = Vector3 (- (57 / 40)) 2 0, width = 3 / 20, depth = 3\<rparr>
     AxisX 2 1 [ScoreUpdate 0 1, ScoreUpdate 1 1, ScoreUpdate 2 1]"
    unfolding tt g using f by (simp add: poised_def)
  have post: "poised (run (tap 74 steady) ?s2)
     \<lparr>position = Vector3 (- (57 / 40)) 4 (- 12), width = 3 / 20, depth = 3\<rparr>
     \<lparr>position = Vector3 (- (57 / 40)) 3 0, width = 3 / 20, depth = 3\<rparr>
     AxisZ 3 2 [ScoreUpdate 0 1, ScoreUpdate 1 1, ScoreUpdate 2 1, ScoreUpdate 3 1]"
    using perfect_stage [OF t2, of 74 steady]
    by (simp add: stage_simps del: One_nat_def)
  from pre post show ?thesis
    by (simp add: run_tap tt)
qed

lemma comboState_facts:
  "poised comboState comboBlock \<lparr>position = Vector3 0 1 0, width = 3, depth = 3\<rparr> AxisZ 1 1
     [ScoreUpdate 0 1, ScoreUpdate 1 1]"
proof -
  let ?s1 = "run (tap 80 steady) started"
  have p0: "poised started \<lparr>position = Vector3 (- 12) 1 0, width = 3, depth = 3\<rparr>
     \<lparr>position = Vector3 0 0 0, width = 3, depth = 3\<rparr> AxisX 0 0 [ScoreUpdate 0 1]"
    using started_poised by simp
  have t1: "poised ?s1 \<lparr>position = Vector3 0 2 (- 12), width = 3, depth = 3\<rparr>
     \<lparr>position = Vector3 0 1 0, width = 3, depth = 3\<rparr> AxisZ 1 1
     [ScoreUpdate 0 1, ScoreUpdate 1 1]"
    using perfect_stage [OF p0, of 80 steady] by (simp add: stage_simps del: One_nat_def)
  then have f: "isGameRunning ?s1"
    "currentBlock ?s1 = Some \<lparr>position = Vector3 0 2 (- 12), width = 3, depth = 3\<rparr>"
    "stack ?s1 \<noteq> []" "last (stack ?s1) = \<lparr>position = Vector3 0 1 0, width = 3, depth = 3\<rparr>"
    "axis ?s1 = AxisZ" "direction ?s1 = 1" "score ?s1 = 1" "comboCounter ?s1 = 1"
    "events ?s1 = [ScoreUpdate 0 1, ScoreUpdate 1 1]"
    by (simp_all add: poised_def)
  have cs: "comboState = run (replicate 61 Animate) ?s1"
    by (simp add: comboState_def started_def run_append)
  have g: "run (replicate 61 Animate) ?s1 =
             ?s1\<lparr>debris := (stepDebris ^^ 61) (debris ?s1),
                  particles := (stepParticles ^^ 61) (particles ?s1),
                  currentBlock := Some comboBlock\<rparr>"
    using run_glide [OF f(1,2,3,6), of 61] f
    by (simp add: stage_simps comboBlock_def)
  show ?thesis
    unfolding cs g using f by (simp add: poised_def)
qed

subsection \<open>A tower on which a block grows\<close>

lemma growReady_facts:
  "poised growReady growBlock \<lparr>position = Vector3 (- (57 / 40)) 3 0, width = 3 / 20, depth = 3\<rparr>
     AxisZ 3 2 [ScoreUpdate 0 1, ScoreUpdate 1 1, ScoreUpdate 2 1, ScoreUpdate 3 1] \<and>
   poised (stateOf (placeBlock steady growReady))
     \<lparr>position = Vector3 (- (537 / 40)) 5 0, width = 13 / 20, depth = 3\<rparr>
     \<lparr>position = Vector3 (- (57 / 40)) 4 0, width = 3 / 20, depth = 3\<rparr>
     AxisX 5 3
     [ScoreUpdate 0 1, ScoreUpdate 1 1, ScoreUpdate 2 1, ScoreUpdate 3 1, ScoreUpdate 5 2]"
proof -
  let ?s1 = "run (tap 61 steady) started"
  let ?s2 = "run (tap 77 steady) ?s1"
  let ?s3 = "run (tap 75 steady) ?s2"
  note t1 = sliver_poised
  have t2: "poised ?s2 \<lparr>position = Vector3 (- (537 / 40)) 3 0, width = 3 / 20, depth = 3\<rparr>
     \<lparr>position = Vector3 (- (57 / 40)) 2 0, width = 3 / 20, depth = 3\<rparr> AxisX 2 1
     [ScoreUpdate 0 1, ScoreUpdate 1 1, ScoreUpdate 2 1]"
    using perfect_stage [OF t1, of 77 steady]
    by (simp add: stage_simps del: One_nat_def)
  have t3: "poised ?s3 \<lparr>position = Vector3 (- (57 / 40)) 4 (- 12), width = 3 / 20, depth = 3\<rparr>
     \<lparr>position = Vector3 (- (57 / 40)) 3 0, width = 3 / 20, depth = 3\<rparr> AxisZ 3 2
     [ScoreUpdate 0 1, ScoreUpdate 1 1, ScoreUpdate 2 1, ScoreUpdate 3 1]"
    using perfect_stage [OF t2, of 75 steady]
    by (simp add: stage_simps del: One_nat_def)
  from t3 have f: "isGameRunning ?s3"
    "currentBlock ?s3 = Some \<lparr>position = Vector3 (- (57 / 40)) 4 (- 12), width = 3 / 20, depth = 3\<rparr>"
    "stack ?s3 \<noteq> []"
    "last (stack ?s3) = \<lparr>position = Vector3 (- (57 / 40)) 3 0, width = 3 / 20, depth = 3\<rparr>"
    "axis ?s3 = AxisZ" "direction ?s3 = 1" "score ?s3 = 3" "comboCounter ?s3 = 2"
    "events ?s3 = [ScoreUpdate 0 1, ScoreUpdate 1 1, ScoreUpdate 2 1, ScoreUpdate 3 1]"
    by (simp_all add: poised_def)
  have gr: "growReady = run (replicate 73 Animate) ?s3"
    by (simp add: growReady_def started_def run_append)
  have g: "run (replicate 73 Animate) ?s3 =
             ?s3\<lparr>debris := (stepDebris ^^ 73) (debris ?s3),
                  particles := (stepParticles ^^ 73) (particles ?s3),
                  currentBlock := Some growBlock\<rparr>"
    using run_glide [OF f(1,2,3,6), of 73] f
    by (simp add: stage_simps growBlock_def)
  have pre: "poised growReady growBlock
     \<lparr>position = Vector3 (- (57 / 40)) 3 0, width = 3 / 20, depth = 3\<rparr>
     AxisZ 3 2 [ScoreUpdate 0 1, ScoreUpdate 1 1, ScoreUpdate 2 1, ScoreUpdate 3 1]"
    unfolding gr g using f by (simp add: poised_def)
  have post: "poised (run (tap 73 steady) ?s3)
     \<lparr>position = Vector3 (- (537 / 40)) 5 0, width = 13 / 20, depth = 3\<rparr>
     \<lparr>position = Vector3 (- (57 / 40)) 4 0, width = 3 / 20, depth = 3\<rparr>
     AxisX 5 3
     [ScoreUpdate 0 1, ScoreUpdate 1 1, ScoreUpdate 2 1, ScoreUpdate 3 1, ScoreUpdate 5 2]"
    using perfect_stage [OF t3, of 73 steady]
    by (simp add: stage_simps del: One_nat_def)
  from pre post show ?thesis
    by (simp add: run_tap gr)
qed

subsection \<open>Particles\<close>

lemma stepParticles_filter:
  "stepParticles ps =
     map (\<lambda>p. p\<lparr>life := life p - decayRate, opacity := life p - decayRate\<rparr>)
       (filter (\<lambda>p. decayRate < life p) ps)"
  by (induction ps) (auto simp: Let_def)

lemma stepParticles_live:
  "list_all liveParticle ps \<Longrightarrow> list_all liveParticle (stepParticles ps)"
  by (induction ps) (auto simp: Let_def liveParticle_def decayRate_def)

lemma stepParticles_pow_Nil: "(stepParticles ^^ n) [] = []"
  by (induction n) simp_all

lemma burst_live:
  assumes "unitDraws rnd"
  shows "list_all liveParticle (burst rnd)"
proof -
  have "liveParticle \<lparr>life = 1 + rnd k * (5 / 10), opacity = 1\<rparr>" for k
  proof -
    from assms have "0 \<le> rnd k" and "rnd k < 1"
      by (simp_all add: unitDraws_def)
    then show ?thesis
      by (simp add: liveParticle_def)
  qed
  then show ?thesis
    by (simp add: burst_def list_all_iff)
qed

lemma particles_placeBlock:
  assumes wf: "wellFormed s"
  shows "particles (stateOf (placeBlock rnd s)) = particles s \<or>
         particles (stateOf (placeBlock rnd s)) = particles s @ burst rnd"
proof (cases "isGameRunning s \<and> currentBlock s \<noteq> None")
  case False
  then have "placeBlock rnd s = Inr s"
    by (auto simp: placeBlock_def split: option.splits)
  then show ?thesis by (simp add: stateOf_simps)
next
  case True
  then obtain cur where run: "isGameRunning s" and cur: "currentBlock s = Some cur" by auto
  from wf cur have st: "stack s \<noteq> []" and bc: "boundedMesh cur"
    by (simp_all add: wellFormed_def)
  show ?thesis
  proof (cases "withinTolerance s cur")
    case True
    from bc have "0 < extentAlong (axis s) cur"
      by (simp add: boundedMesh_def extentAlong_def split: axis.splits)
    from placeBlock_perfect [OF run cur st True this, of rnd] show ?thesis
      by (simp add: stateOf_simps spawnPerfectParticles_def burst_def)
  next
    case False
    show ?thesis
    proof (cases "0 < extentAlong (axis s) (last (stack s)) - \<bar>axisDelta (axis s) cur (last (stack s))\<bar>")
      case True
      from placeBlock_trimmed [OF run cur st False True, of rnd] show ?thesis
        by (simp add: stateOf_simps Let_def)
    next
      case nonpos: False
      with False have "computedOverlap s cur \<le> 0" by (simp add: computedOverlap_def)
      from placeBlock_miss [OF run cur st this, of rnd] False show ?thesis
        by (simp add: stateOf_simps)
    qed
  qed
qed

lemma particles_exec:
  assumes "wellFormed s" and "list_all liveParticle (particles s)" and "drawsOk c"
  shows "list_all liveParticle (particles (stateOf (exec c s)))"
proof (cases c)
  case StartGame
  then show ?thesis
    by (simp add: startGame_def spawnBaseBlock_def cleanup_def spawnNextBlock_def stateOf_simps Let_def)
next
  case ReviveGame
  with assms(2) show ?thesis
    by (simp add: reviveGame_def spawnNextBlock_def stateOf_simps Let_def)
next
  case (PlaceBlock rnd)
  with assms(3) have "list_all liveParticle (burst rnd)"
    by (simp add: burst_live)
  with particles_placeBlock [OF assms(1), of rnd] assms(2) PlaceBlock show ?thesis
    by auto
next
  case Animate
  from assms(1) have "currentBlock s \<noteq> None \<longrightarrow> stack s \<noteq> []"
    by (auto simp: wellFormed_def)
  from animate_frame [OF this] obtain s' where "animate s = Inr s'"
    "particles s' = stepParticles (particles s)"
    by blast
  with assms(2) Animate show ?thesis
    by (simp add: stateOf_simps stepParticles_live)
next
  case Dispose
  then show ?thesis
    by (simp add: dispose_def cleanup_def stateOf_simps)
qed

lemma particles_run:
  assumes "wellFormed s" and "list_all liveParticle (particles s)" and "list_all drawsOk cs"
  shows "list_all liveParticle (particles (run cs s))"
  using assms
proof (induction cs arbitrary: s)
  case Nil
  then show ?case by simp
next
  case (Cons c cs)
  from Cons.prems have "wellFormed (stateOf (exec c s))"
    and "list_all liveParticle (particles (stateOf (exec c s)))"
    by (simp_all add: wellFormed_exec particles_exec)
  with Cons.IH [of "stateOf (exec c s)"] Cons.prems(3) show ?case
    by simp
qed

lemma firstPerfect_particles: "particles firstPerfect = burst steady"
proof -
  have p0: "poised started \<lparr>position = Vector3 (- 12) 1 0, width = 3, depth = 3\<rparr>
     \<lparr>position = Vector3 0 0 0, width = 3, depth = 3\<rparr> AxisX 0 0 [ScoreUpdate 0 1]"
    and e: "particles started = []"
    using started_poised by simp_all
  have "particles (run (tap 80 steady) started) =
          (stepParticles ^^ 80) (particles started) @
          map (\<lambda>i. \<lparr>life = 1 + steady (4 * i + 3) * (5 / 10), opacity = 1\<rparr>) [0..<particleCount]"
    using perfect_stage [OF p0, of 80 steady] by (simp add: stage_simps)
  then show ?thesis
    by (simp add: firstPerfect_def started_def e [unfolded started_def] stepParticles_pow_Nil
        burst_def)
qed

section \<open>The claims\<close>

text \<open>
  C1 (as amended). After \<^verbatim>\<open>startGame\<close>, a run of frames and taps in which all five taps
  are perfect leaves the combo counter at 5 and the score at 8, not 5: the score grows by
  the multiplier, and \<^verbatim>\<open>onScoreUpdate\<close> is called with (1, 1), (2, 1), (4, 2), (6, 2),
  (8, 2), so the multiplier reported on the 3rd, 4th and 5th tap is 2.
\<close>

theorem five_perfect_taps:
  assumes "startGame s0 = Inr s" and "perfectRun cs s" and "placements cs = 5"
  shows "comboCounter (run cs s) = 5 \<and> score (run cs s) = 8 \<and>
         events (run cs s) =
           events s0 @ [ScoreUpdate 0 1, ScoreUpdate 1 1, ScoreUpdate 2 1, ScoreUpdate 4 2,
                        ScoreUpdate 6 2, ScoreUpdate 8 2]"
proof -
  from assms(1) have s: "s = stateOf (startGame s0)"
    by (simp add: stateOf_simps)
  have wf: "wellFormed s"
    unfolding s by (rule wellFormed_startGame)
  from assms(1) have f: "isGameRunning s" "currentBlock s \<noteq> None" "score s = 0"
    "comboCounter s = 0" "events s = events s0 @ [ScoreUpdate 0 1]"
    by (auto simp: startGame_def spawnBaseBlock_def cleanup_def spawnNextBlock_def Let_def)
  from perfect_run_totals [OF wf f(1) f(2) assms(2)] show ?thesis
    unfolding assms(3) f five_values by simp
qed

theorem five_perfect_taps_witness:
  "startGame constructor = Inr started \<and> perfectRun fivePerfect started \<and>
   placements fivePerfect = 5 \<and>
   comboCounter (run fivePerfect started) = 5 \<and> score (run fivePerfect started) = 8 \<and>
   events (run fivePerfect started) =
     [ScoreUpdate 0 1, ScoreUpdate 1 1, ScoreUpdate 2 1, ScoreUpdate 4 2, ScoreUpdate 6 2,
      ScoreUpdate 8 2]"
proof -
  have a: "startGame constructor = Inr started"
    by (simp add: started_def startGame_def spawnBaseBlock_def cleanup_def spawnNextBlock_def
        stateOf_simps Let_def)
  have b: "perfectRun fivePerfect started"
    using fivePerfect_chain by simp
  have e: "events constructor = []"
    by (simp add: constructor_def spawnBaseBlock_def cleanup_def)
  from five_perfect_taps [OF a b placements_fivePerfect] a b placements_fivePerfect e
  show ?thesis by simp
qed

theorem five_perfect_taps_score_counterexample:
  "perfectRun fivePerfect (stateOf (startGame constructor)) \<and> placements fivePerfect = 5 \<and>
   score (run (StartGame # fivePerfect) constructor) = 8 \<and>
   score (run (StartGame # fivePerfect) constructor) \<noteq> 5"
  using fivePerfect_chain placements_fivePerfect
  by (simp add: poised_def started_def)

text \<open>
  C2. The score multiplier is a function of the combo counter alone: it is 1 below the
  combo threshold and \<open>combo div threshold + 1\<close> from the threshold on; with the
  configured threshold 3, a combo of 3 gives 2 and a combo of 6 gives 3.
\<close>

theorem multiplier_spec:
  "(c < comboThreshold \<longrightarrow> multiplier c = 1) \<and>
   (c \<ge> comboThreshold \<longrightarrow> multiplier c = c div comboThreshold + 1) \<and>
   multiplier 3 = 2 \<and> multiplier 6 = 3"
  by (simp add: multiplier_def floor_div_threshold) (simp add: comboThreshold_def)

theorem multiplier_spec_witness:
  "(2::nat) < comboThreshold \<and> multiplier 2 = 1 \<and> (7::nat) \<ge> comboThreshold \<and> multiplier 7 = 3"
proof -
  have lo: "(2::nat) < comboThreshold" and hi: "(7::nat) \<ge> comboThreshold"
    by (simp_all add: comboThreshold_def)
  have "multiplier 2 = 1"
    using multiplier_spec [of 2] lo by blast
  moreover have "multiplier 7 = 7 div comboThreshold + 1"
    using multiplier_spec [of 7] hi by blast
  ultimately show ?thesis
    using lo hi by (simp add: comboThreshold_def)
qed

text \<open>
  C3. The tolerance that \<^verbatim>\<open>placeBlock\<close> compares the offset with is, as a function of
  the score, non-increasing on \<open>0 \<le> s < difficultyRamp\<close>, where it is the linear
  interpolation from \<open>initialErrorTolerance\<close> down to \<open>errorTolerance\<close>, and it is
  \<open>errorTolerance\<close> for every score from \<open>difficultyRamp\<close> on; it never increases
  with the score.
\<close>

theorem tolerance_ramp:
  "(0 \<le> s \<and> s \<le> t \<and> t < difficultyRamp \<longrightarrow> currentTolerance t \<le> currentTolerance s) \<and>
   (s < difficultyRamp \<longrightarrow>
      currentTolerance s =
        initialErrorTolerance - (s / difficultyRamp) * (initialErrorTolerance - errorTolerance)) \<and>
   (difficultyRamp \<le> s \<longrightarrow> currentTolerance s = errorTolerance) \<and>
   (s \<le> t \<longrightarrow> currentTolerance t \<le> currentTolerance s)"
  by (simp add: currentTolerance_def config_defs Let_def)

theorem tolerance_ramp_witness:
  "(0::rat) \<le> 3 \<and> (3::rat) \<le> 6 \<and> (6::rat) < difficultyRamp \<and> difficultyRamp \<le> 20 \<and>
   currentTolerance 6 \<le> currentTolerance 3 \<and> currentTolerance 3 = 52 / 100 \<and>
   currentTolerance 6 = 44 / 100 \<and> currentTolerance 20 = errorTolerance"
proof -
  have r: "(6::rat) < difficultyRamp" "(3::rat) < difficultyRamp" "difficultyRamp \<le> 20"
    by (simp_all add: difficultyRamp_def)
  have "currentTolerance 6 \<le> currentTolerance 3"
    using tolerance_ramp [of 3 6] r by simp
  moreover have "currentTolerance 3 = 52 / 100"
    using tolerance_ramp [of 3 6] r by (simp add: config_defs)
  moreover have "currentTolerance 6 = 44 / 100"
    using tolerance_ramp [of 6 6] r by (simp add: config_defs)
  moreover have "currentTolerance 20 = errorTolerance"
    using tolerance_ramp [of 20 20] r by simp
  ultimately show ?thesis using r by simp
qed

text \<open>
  C4 (as amended). For every \<^verbatim>\<open>placeBlock\<close> call on an engine that is playing with a
  moving block: when the computed overlap is \<open>\<le> 0\<close>, exactly 0 included, the tap is a miss,
  the engine stops running and \<^verbatim>\<open>onGameOver\<close> is called once, with the final score; when
  it is positive the block is pushed onto the tower and the game goes on. An offset of at
  least the reference extent ends the game whenever the tap is not within the tolerance;
  within the tolerance the block is snapped and its own extent is the overlap.
\<close>

theorem overlap_decides:
  assumes "s = run cs constructor" and "isGameRunning s" and "currentBlock s = Some cur"
  shows "\<exists>s'. placeBlock rnd s = Inr s' \<and>
           (computedOverlap s cur \<le> 0 \<longrightarrow>
              \<not> isGameRunning s' \<and> stack s' = stack s \<and> score s' = score s \<and>
              events s' = events s @ [GameOver (score s')]) \<and>
           (0 < computedOverlap s cur \<longrightarrow>
              isGameRunning s' \<and> (\<exists>placed. stack s' = stack s @ [placed]) \<and>
              (\<exists>m. events s' = events s @ [ScoreUpdate (score s') m])) \<and>
           (\<not> withinTolerance s cur \<and>
            extentAlong (axis s) (last (stack s)) \<le> \<bar>axisDelta (axis s) cur (last (stack s))\<bar> \<longrightarrow>
              \<not> isGameRunning s' \<and> events s' = events s @ [GameOver (score s')]) \<and>
           (withinTolerance s cur \<longrightarrow>
              computedOverlap s cur = extentAlong (axis s) cur \<and> isGameRunning s')"
proof -
  have wf: "wellFormed s"
    unfolding assms(1) using wellFormed_constructor by (rule wellFormed_run)
  with assms(3) have st: "stack s \<noteq> []" and bc: "boundedMesh cur"
    by (simp_all add: wellFormed_def)
  from bc have ex: "0 < extentAlong (axis s) cur"
    by (simp add: boundedMesh_def extentAlong_def split: axis.splits)
  show ?thesis
  proof (cases "withinTolerance s cur")
    case True
    from placeBlock_perfect [OF assms(2,3) st True ex, of rnd] True ex assms(2) show ?thesis
      by (simp add: computedOverlap_def)
  next
    case False
    show ?thesis
    proof (cases "0 < computedOverlap s cur")
      case True
      with False
      have "0 < extentAlong (axis s) (last (stack s)) - \<bar>axisDelta (axis s) cur (last (stack s))\<bar>"
        by (simp add: computedOverlap_def)
      from placeBlock_trimmed [OF assms(2,3) st False this, of rnd] True False assms(2)
      show ?thesis
        by (simp add: Let_def computedOverlap_def)
    next
      case nonpos: False
      then have "computedOverlap s cur \<le> 0" by simp
      from placeBlock_miss [OF assms(2,3) st this, of rnd] nonpos False show ?thesis
        by (simp add: computedOverlap_def)
    qed
  qed
qed

theorem overlap_decides_witness:
  "started = run [StartGame] constructor \<and> isGameRunning started \<and>
   currentBlock started = Some \<lparr>position = Vector3 (- 12) 1 0, width = 3, depth = 3\<rparr> \<and>
   computedOverlap started \<lparr>position = Vector3 (- 12) 1 0, width = 3, depth = 3\<rparr> = - 9 \<and>
   \<not> isGameRunning (stateOf (placeBlock steady started)) \<and>
   score (stateOf (placeBlock steady started)) = 0 \<and>
   events (stateOf (placeBlock steady started)) = [ScoreUpdate 0 1, GameOver 0] \<and>
   comboState = run (StartGame # tap 80 steady @ replicate 61 Animate) constructor \<and>
   isGameRunning comboState \<and> currentBlock comboState = Some comboBlock \<and>
   computedOverlap comboState comboBlock = 91 / 200 \<and>
   isGameRunning (stateOf (placeBlock steady comboState)) \<and>
   length (stack (stateOf (placeBlock steady comboState))) = length (stack comboState) + 1"
proof -
  let ?b = "\<lparr>position = Vector3 (- 12) 1 0, width = 3, depth = 3\<rparr>"
  have e: "started = run [StartGame] constructor"
    by (simp add: started_def)
  from started_poised have f: "isGameRunning started" "currentBlock started = Some ?b"
    "last (stack started) = \<lparr>position = Vector3 0 0 0, width = 3, depth = 3\<rparr>"
    "axis started = AxisX" "score started = 0" "events started = [ScoreUpdate 0 1]"
    by (simp_all add: poised_def)
  have ov: "computedOverlap started ?b = - 9"
    by (simp add: computedOverlap_def withinTolerance_def f stage_simps)
  from overlap_decides [OF e f(1) f(2), of steady] obtain s' where
    "placeBlock steady started = Inr s'"
    "computedOverlap started ?b \<le> 0 \<longrightarrow>
       \<not> isGameRunning s' \<and> stack s' = stack started \<and> score s' = score started \<and>
       events s' = events started @ [GameOver (score s')]"
    by blast
  with ov f have miss: "\<not> isGameRunning (stateOf (placeBlock steady started))"
    "score (stateOf (placeBlock steady started)) = 0"
    "events (stateOf (placeBlock steady started)) = [ScoreUpdate 0 1, GameOver 0]"
    by (simp_all add: stateOf_simps)
  have e2: "comboState = run (StartGame # tap 80 steady @ replicate 61 Animate) constructor"
    by (simp add: comboState_def)
  from comboState_facts have g: "isGameRunning comboState"
    "currentBlock comboState = Some comboBlock" "axis comboState = AxisZ"
    "last (stack comboState) = \<lparr>position = Vector3 0 1 0, width = 3, depth = 3\<rparr>"
    "score comboState = 1"
    by (simp_all add: poised_def)
  have ov2: "computedOverlap comboState comboBlock = 91 / 200"
    by (simp add: computedOverlap_def withinTolerance_def g comboBlock_def stage_simps)
  from overlap_decides [OF e2 g(1) g(2), of steady] obtain t' where
    "placeBlock steady comboState = Inr t'"
    "0 < computedOverlap comboState comboBlock \<longrightarrow>
       isGameRunning t' \<and> (\<exists>placed. stack t' = stack comboState @ [placed]) \<and>
       (\<exists>m. events t' = events comboState @ [ScoreUpdate (score t') m])"
    by blast
  with ov2 have hit: "isGameRunning (stateOf (placeBlock steady comboState))"
    "length (stack (stateOf (placeBlock steady comboState))) = length (stack comboState) + 1"
    by (auto simp: stateOf_simps)
  from e f(1,2) ov miss e2 g(1,2) ov2 hit show ?thesis
    by (intro conjI)
qed

theorem overlap_decides_snap_counterexample:
  "isGameRunning thinTower \<and> currentBlock thinTower = Some thinBlock \<and>
   \<not> \<bar>axisDelta (axis thinTower) thinBlock (last (stack thinTower))\<bar>
       < extentAlong (axis thinTower) (last (stack thinTower)) \<and>
   extentAlong (axis thinTower) (last (stack thinTower)) = 3 / 20 \<and>
   \<bar>axisDelta (axis thinTower) thinBlock (last (stack thinTower))\<bar> = 4 / 25 \<and>
   isGameRunning (stateOf (placeBlock steady thinTower)) \<and>
   events (stateOf (placeBlock steady thinTower)) =
     [ScoreUpdate 0 1, ScoreUpdate 1 1, ScoreUpdate 2 1, ScoreUpdate 3 1]"
  using thinTower_facts
  by (simp add: poised_def extentAlong_def axisDelta_def thinBlock_def)

text \<open>
  C5. A tap that is not perfect (the offset is at least the current tolerance) resets the
  combo counter to 0; the overlap is the extent of the tower top along the active axis
  minus the size of the offset; a block that is placed keeps that overlap along the active
  axis and its own extent across it, and a block that misses is left as it is.
\<close>

theorem imperfect_tap:
  assumes "s = run cs constructor" and "isGameRunning s" and "currentBlock s = Some cur"
    and "\<not> withinTolerance s cur"
  shows "\<exists>s'. placeBlock rnd s = Inr s' \<and> comboCounter s' = 0 \<and>
           computedOverlap s cur =
             extentAlong (axis s) (last (stack s)) - \<bar>axisDelta (axis s) cur (last (stack s))\<bar> \<and>
           (if 0 < computedOverlap s cur
            then \<exists>placed. stack s' = stack s @ [placed] \<and>
                   extentAlong (axis s) placed = computedOverlap s cur \<and>
                   extentAcross (axis s) placed = extentAcross (axis s) cur
            else stack s' = stack s \<and> currentBlock s' = Some cur \<and>
                 (\<exists>d. debris s' = debris s @ [d] \<and> mesh d = cur))"
proof -
  have wf: "wellFormed s"
    unfolding assms(1) using wellFormed_constructor by (rule wellFormed_run)
  with assms(3) have st: "stack s \<noteq> []"
    by (simp add: wellFormed_def)
  show ?thesis
  proof (cases "0 < computedOverlap s cur")
    case True
    with assms(4)
    have "0 < extentAlong (axis s) (last (stack s)) - \<bar>axisDelta (axis s) cur (last (stack s))\<bar>"
      by (simp add: computedOverlap_def)
    from placeBlock_trimmed [OF assms(2,3) st assms(4) this, of rnd] True assms(4)
    show ?thesis
      by (cases "axis s")
         (simp_all add: Let_def computedOverlap_def extentAlong_def extentAcross_def)
  next
    case False
    then have "computedOverlap s cur \<le> 0" by simp
    from placeBlock_miss [OF assms(2,3) st this, of rnd] False assms(4) show ?thesis
      by (simp add: computedOverlap_def)
  qed
qed

theorem imperfect_tap_witness:
  "comboState = run (StartGame # tap 80 steady @ replicate 61 Animate) constructor \<and>
   isGameRunning comboState \<and> currentBlock comboState = Some comboBlock \<and>
   \<not> withinTolerance comboState comboBlock \<and> comboCounter comboState = 1 \<and>
   computedOverlap comboState comboBlock = 91 / 200 \<and>
   comboCounter (stateOf (placeBlock steady comboState)) = 0 \<and>
   depth (last (stack (stateOf (placeBlock steady comboState)))) = 91 / 200 \<and>
   width (last (stack (stateOf (placeBlock steady comboState)))) = 3"
proof -
  have e: "comboState = run (StartGame # tap 80 steady @ replicate 61 Animate) constructor"
    by (simp add: comboState_def)
  from comboState_facts have f: "isGameRunning comboState"
    "currentBlock comboState = Some comboBlock" "axis comboState = AxisZ"
    "last (stack comboState) = \<lparr>position = Vector3 0 1 0, width = 3, depth = 3\<rparr>"
    "score comboState = 1" "comboCounter comboState = 1"
    by (simp_all add: poised_def)
  have nt: "\<not> withinTolerance comboState comboBlock"
    by (simp add: withinTolerance_def f comboBlock_def stage_simps)
  have ov: "computedOverlap comboState comboBlock = 91 / 200"
    by (simp add: computedOverlap_def nt f) (simp add: comboBlock_def stage_simps)
  from imperfect_tap [OF e f(1) f(2) nt, of steady] obtain s' where
    s': "placeBlock steady comboState = Inr s'" "comboCounter s' = 0"
    and pl: "if 0 < computedOverlap comboState comboBlock
         then \<exists>placed. stack s' = stack comboState @ [placed] \<and>
                extentAlong (axis comboState) placed = computedOverlap comboState comboBlock \<and>
                extentAcross (axis comboState) placed = extentAcross (axis comboState) comboBlock
         else stack s' = stack comboState \<and> currentBlock s' = Some comboBlock \<and>
              (\<exists>d. debris s' = debris comboState @ [d] \<and> mesh d = comboBlock)"
    by blast
  from pl ov f obtain placed where "stack s' = stack comboState @ [placed]"
    "depth placed = 91 / 200" "width placed = 3"
    by (auto simp: extentAlong_def extentAcross_def comboBlock_def)
  with s' e f nt ov show ?thesis
    by (simp add: stateOf_simps)
qed

text \<open>
  C6. Spawning never makes the new block smaller than the previous spawn it is built from,
  the block on top of the tower: \<^verbatim>\<open>spawnNextBlock\<close> copies the extents of the tower top and
  grows each of them by the growth step, capped at the default block size, when the combo
  counter has reached the threshold and the extent is below the default size. So growth
  only ever increases an extent; in every reachable state the moving block is at least as
  large as the tower top, and no block is larger than the default block size. A perfect
  tap places the block with the extents it was spawned with, and the block spawned next,
  which is where the growth of the combo shows, is at least as large.
\<close>

theorem spawn_growth:
  assumes "s = run cs constructor"
  shows "list_all (\<lambda>b. width b \<le> defaultBlockSize \<and> depth b \<le> defaultBlockSize) (stack s) \<and>
         (currentBlock s = Some cur \<longrightarrow>
            width cur \<le> defaultBlockSize \<and> depth cur \<le> defaultBlockSize \<and>
            width (last (stack s)) \<le> width cur \<and> depth (last (stack s)) \<le> depth cur) \<and>
         (stack s \<noteq> [] \<longrightarrow>
            spawnNextBlock s =
              Inr (s\<lparr>currentBlock :=
                      Some \<lparr>position = spawnPosition (axis s) (last (stack s)),
                            width = grow (comboCounter s) (width (last (stack s))),
                            depth = grow (comboCounter s) (depth (last (stack s)))\<rparr>\<rparr>)) \<and>
         e \<le> grow c e \<and>
         (c < comboThreshold \<longrightarrow> grow c e = e) \<and>
         (comboThreshold \<le> c \<and> e < defaultBlockSize \<longrightarrow>
            grow c e = min defaultBlockSize (e + growthFactor)) \<and>
         (e \<le> defaultBlockSize \<longrightarrow> grow c e \<le> defaultBlockSize) \<and>
         (isGameRunning s \<and> currentBlock s = Some cur \<and> withinTolerance s cur \<longrightarrow>
            (\<exists>placed next. stack (stateOf (placeBlock rnd s)) = stack s @ [placed] \<and>
               currentBlock (stateOf (placeBlock rnd s)) = Some next \<and>
               width placed = width cur \<and> depth placed = depth cur \<and>
               width next = grow (comboCounter s + 1) (width cur) \<and>
               depth next = grow (comboCounter s + 1) (depth cur) \<and>
               width cur \<le> width next \<and> depth cur \<le> depth next))"
proof -
  have wf: "wellFormed s"
    unfolding assms(1) using wellFormed_constructor by (rule wellFormed_run)
  have ct: "coversTop s"
    unfolding assms(1) using wellFormed_constructor coversTop_constructor by (rule coversTop_run)
  have a: "list_all (\<lambda>b. width b \<le> defaultBlockSize \<and> depth b \<le> defaultBlockSize) (stack s)"
    using wf by (simp add: wellFormed_def list_all_iff boundedMesh_def)
  have b: "currentBlock s = Some cur \<longrightarrow>
            width cur \<le> defaultBlockSize \<and> depth cur \<le> defaultBlockSize \<and>
            width (last (stack s)) \<le> width cur \<and> depth (last (stack s)) \<le> depth cur"
    using wf ct by (auto simp: wellFormed_def boundedMesh_def coversTop_def)
  have g: "(c < comboThreshold \<longrightarrow> grow c e = e) \<and>
         (comboThreshold \<le> c \<and> e < defaultBlockSize \<longrightarrow>
            grow c e = min defaultBlockSize (e + growthFactor))"
    by (simp add: grow_def)
  have p: "\<exists>placed next. stack (stateOf (placeBlock rnd s)) = stack s @ [placed] \<and>
               currentBlock (stateOf (placeBlock rnd s)) = Some next \<and>
               width placed = width cur \<and> depth placed = depth cur \<and>
               width next = grow (comboCounter s + 1) (width cur) \<and>
               depth next = grow (comboCounter s + 1) (depth cur) \<and>
               width cur \<le> width next \<and> depth cur \<le> depth next"
    if run: "isGameRunning s" and cur: "currentBlock s = Some cur" and wt: "withinTolerance s cur"
  proof -
    from wf cur have st: "stack s \<noteq> []" and bc: "boundedMesh cur"
      by (simp_all add: wellFormed_def)
    from bc have "0 < extentAlong (axis s) cur"
      by (simp add: boundedMesh_def extentAlong_def split: axis.splits)
    from placeBlock_perfect [OF run cur st wt this, of rnd] show ?thesis
      by (simp add: stateOf_simps grow_bounds)
  qed
  from a b g p show ?thesis
    by (simp add: spawnNextBlock_Inr grow_bounds)
qed

theorem spawn_growth_witness:
  "growReady =
     run (StartGame # tap 61 steady @ tap 77 steady @ tap 75 steady @ replicate 73 Animate)
       constructor \<and>
   isGameRunning growReady \<and> currentBlock growReady = Some growBlock \<and>
   withinTolerance growReady growBlock \<and> stack growReady \<noteq> [] \<and>
   comboCounter growReady + 1 = 3 \<and> comboThreshold \<le> 3 \<and> (2::nat) < comboThreshold \<and>
   width growBlock = 3 / 20 \<and> (3 / 20 :: rat) < defaultBlockSize \<and>
   width (last (stack growReady)) \<le> width growBlock \<and>
   grow 2 (3 / 20) = 3 / 20 \<and> grow 3 (3 / 20) = 13 / 20 \<and>
   map_option width (currentBlock (stateOf (placeBlock steady growReady))) = Some (13 / 20) \<and>
   map_option depth (currentBlock (stateOf (placeBlock steady growReady))) = Some 3 \<and>
   list_all (\<lambda>b. width b \<le> defaultBlockSize \<and> depth b \<le> defaultBlockSize) (stack growReady)"
proof -
  have e: "growReady =
     run (StartGame # tap 61 steady @ tap 77 steady @ tap 75 steady @ replicate 73 Animate)
       constructor"
    by (simp add: growReady_def)
  from growReady_facts have f: "isGameRunning growReady"
    "currentBlock growReady = Some growBlock" "stack growReady \<noteq> []"
    "last (stack growReady) = \<lparr>position = Vector3 (- (57 / 40)) 3 0, width = 3 / 20, depth = 3\<rparr>"
    "axis growReady = AxisZ" "score growReady = 3" "comboCounter growReady = 2"
    by (simp_all add: poised_def)
  have wt: "withinTolerance growReady growBlock"
    by (simp add: withinTolerance_def f growBlock_def stage_simps)
  have c: "comboThreshold \<le> 3" "(2::nat) < comboThreshold" "(3 / 20 :: rat) < defaultBlockSize"
    "(3 :: rat) \<le> defaultBlockSize"
    by (simp_all add: config_defs)
  have w: "width growBlock = 3 / 20" "depth growBlock = 3"
    by (simp_all add: growBlock_def)
  note hi = spawn_growth [OF e, of growBlock "3 / 20" 3 steady]
  note lo = spawn_growth [OF e, of growBlock "3 / 20" 2 steady]
  note dp = spawn_growth [OF e, of growBlock 3 3 steady]
  from hi have a: "list_all (\<lambda>b. width b \<le> defaultBlockSize \<and> depth b \<le> defaultBlockSize)
                     (stack growReady)"
    by (rule conjunct1)
  from hi f(2) have cov: "width (last (stack growReady)) \<le> width growBlock"
    by blast
  from hi c have "grow 3 (3 / 20) = min defaultBlockSize (3 / 20 + growthFactor)"
    by blast
  then have g3: "grow 3 (3 / 20) = 13 / 20"
    by (simp add: config_defs)
  from lo c have g2: "grow 2 (3 / 20) = 3 / 20"
    by blast
  from dp c have "grow 3 3 \<le> defaultBlockSize" "3 \<le> grow 3 3"
    by blast+
  then have g33: "grow 3 3 = 3"
    by (simp add: config_defs)
  from hi f(1,2) wt obtain placed nxt where
    n: "currentBlock (stateOf (placeBlock steady growReady)) = Some nxt"
      "width nxt = grow (comboCounter growReady + 1) (width growBlock)"
      "depth nxt = grow (comboCounter growReady + 1) (depth growBlock)"
    by blast
  have nw: "map_option width (currentBlock (stateOf (placeBlock steady growReady))) = Some (13 / 20)"
    and nd: "map_option depth (currentBlock (stateOf (placeBlock steady growReady))) = Some 3"
    using n f(7) w g3 g33 by simp_all
  have cc: "comboCounter growReady + 1 = 3"
    using f(7) by simp
  from e f(1,2) wt f(3) cc c(1,2) w(1) c(3) cov g2 g3 nw nd a show ?thesis
    by (intro conjI)
qed

text \<open>
  C7. \<^verbatim>\<open>placeBlock\<close> on an engine that is not running, or that has no moving block,
  returns without changing the state; \<^verbatim>\<open>reviveGame\<close> on a running engine returns
  without changing the state; so after a \<^verbatim>\<open>reviveGame\<close> the engine is running and a
  second \<^verbatim>\<open>reviveGame\<close> changes nothing, the number of entities included.
\<close>

theorem defensive_returns:
  "(\<not> isGameRunning s \<or> currentBlock s = None \<longrightarrow> placeBlock rnd s = Inr s) \<and>
   (isGameRunning s \<longrightarrow> reviveGame s = Inr s) \<and>
   isGameRunning (stateOf (reviveGame s)) \<and>
   reviveGame (stateOf (reviveGame s)) = Inr (stateOf (reviveGame s)) \<and>
   entityCount (stateOf (reviveGame (stateOf (reviveGame s)))) = entityCount (stateOf (reviveGame s))"
  by (auto simp: placeBlock_def reviveGame_def spawnNextBlock_def Let_def stateOf_def
      split: option.splits)

theorem defensive_returns_witness:
  "\<not> isGameRunning constructor \<and> placeBlock steady constructor = Inr constructor \<and>
   isGameRunning started \<and> reviveGame started = Inr started \<and>
   \<not> isGameRunning lostGame \<and> isGameRunning (stateOf (reviveGame lostGame)) \<and>
   reviveGame (stateOf (reviveGame lostGame)) = Inr (stateOf (reviveGame lostGame))"
proof -
  have a: "\<not> isGameRunning constructor"
    by (simp add: constructor_def spawnBaseBlock_def cleanup_def)
  have b: "isGameRunning started"
    using started_poised by (simp add: poised_def)
  have c: "\<not> isGameRunning lostGame"
    by (simp add: lostGame_def startGame_def spawnBaseBlock_def cleanup_def constructor_def
        spawnNextBlock_def placeBlock_def finishPlacement_def handleGameOver_def stateOf_simps
        stage_simps)
  from defensive_returns [of constructor steady] a
  have "placeBlock steady constructor = Inr constructor" by blast
  moreover from defensive_returns [of started steady] b
  have "reviveGame started = Inr started" by blast
  moreover from defensive_returns [of lostGame steady]
  have "isGameRunning (stateOf (reviveGame lostGame))"
    "reviveGame (stateOf (reviveGame lostGame)) = Inr (stateOf (reviveGame lostGame))"
    by blast+
  ultimately show ?thesis
    using a b c by simp
qed

text \<open>
  C8 (as amended). After \<^verbatim>\<open>dispose\<close> the engine owns no entity. A second \<^verbatim>\<open>dispose\<close>
  and a \<^verbatim>\<open>placeBlock\<close> return without changing anything, and so does \<^verbatim>\<open>reviveGame\<close>
  when the engine was running when it was disposed of; any sequence of these calls leaves
  the disposed engine as it is. \<^verbatim>\<open>startGame\<close> does not throw, but it starts a new game:
  the base block and a moving block exist again.
\<close>

theorem after_dispose:
  "entityCount (dispose s) = 0 \<and>
   dispose (dispose s) = dispose s \<and>
   placeBlock rnd (dispose s) = Inr (dispose s) \<and>
   (isGameRunning s \<longrightarrow> reviveGame (dispose s) = Inr (dispose s)) \<and>
   (list_all (quietCall (isGameRunning s)) cs \<longrightarrow> run cs (dispose s) = dispose s) \<and>
   (\<exists>s'. startGame (dispose s) = Inr s' \<and> isGameRunning s' \<and> entityCount s' = 2 \<and>
      stack s' = [\<lparr>position = Vector3 0 0 0, width = defaultBlockSize, depth = defaultBlockSize\<rparr>] \<and>
      currentBlock s' \<noteq> None)"
proof -
  have q: "stateOf (exec c (dispose s)) = dispose s" if "quietCall (isGameRunning s) c" for c
    using that
    by (cases c)
       (simp_all add: dispose_def cleanup_def placeBlock_def reviveGame_def animate_def
          moveCurrentBlock_def stateOf_simps)
  have "run cs (dispose s) = dispose s" if "list_all (quietCall (isGameRunning s)) cs"
    using that by (induction cs) (simp_all add: q)
  then show ?thesis
    by (simp add: dispose_def cleanup_def entityCount_def placeBlock_def reviveGame_def
        startGame_def spawnBaseBlock_def spawnNextBlock_def Let_def)
qed

theorem after_dispose_witness:
  "isGameRunning started \<and> entityCount started = 2 \<and> entityCount (dispose started) = 0 \<and>
   reviveGame (dispose started) = Inr (dispose started) \<and>
   placeBlock steady (dispose started) = Inr (dispose started) \<and>
   dispose (dispose started) = dispose started \<and>
   list_all (quietCall (isGameRunning started)) [PlaceBlock steady, ReviveGame, Dispose, Animate] \<and>
   run [PlaceBlock steady, ReviveGame, Dispose, Animate] (dispose started) = dispose started"
proof -
  have r: "isGameRunning started" and c: "currentBlock started \<noteq> None"
    and p: "particles started = []"
    using started_poised by (simp_all add: poised_def)
  have n: "entityCount started = 2"
    by (simp add: started_def startGame_def spawnBaseBlock_def cleanup_def spawnNextBlock_def
        entityCount_def stateOf_simps Let_def)
  have l: "list_all (quietCall (isGameRunning started)) [PlaceBlock steady, ReviveGame, Dispose, Animate]"
    using r by simp
  from after_dispose [of started steady "[PlaceBlock steady, ReviveGame, Dispose, Animate]"] r n l
  show ?thesis
    by blast
qed

theorem after_dispose_counterexample:
  "entityCount (dispose constructor) = 0 \<and>
   entityCount (stateOf (startGame (dispose constructor))) = 2 \<and>
   \<not> isGameRunning (dispose constructor) \<and> threw (reviveGame (dispose constructor)) \<and>
   reviveGame (dispose constructor) =
     Inl (TypeError,
          \<lparr>stack = [], debris = [], particles = [], isGameRunning = True, score = 0,
           axis = AxisX, direction = 1, currentBlock = None, comboCounter = 0, events = []\<rparr>)"
  by (simp add: dispose_def cleanup_def entityCount_def constructor_def reviveGame_def
      startGame_def spawnBaseBlock_def spawnNextBlock_def stateOf_simps threw_def Let_def)

text \<open>
  C9 (as amended). A particle is created with a life in \<open>[1, 3/2]\<close>, namely
  \<open>1 + r / 2\<close> for a random draw \<open>r\<close>, so a particle in the list can have a life above 1;
  every particle in the list of a reachable engine has a life in \<open>(0, 3/2]\<close>. Each frame
  lowers the life by the fixed decay rate 0.05 and sets the opacity to the new life, and
  removes the particle in that same frame exactly when the new life is \<open>\<le> 0\<close>.
\<close>

theorem particle_life:
  assumes "s = run cs constructor" and "list_all drawsOk cs"
  shows "list_all liveParticle (particles s) \<and>
         (\<exists>s'. animate s = Inr s' \<and>
            particles s' =
              map (\<lambda>p. p\<lparr>life := life p - decayRate, opacity := life p - decayRate\<rparr>)
                (filter (\<lambda>p. \<not> life p - decayRate \<le> 0) (particles s))) \<and>
         decayRate = 5 / 100 \<and>
         (unitDraws rnd \<longrightarrow>
            list_all (\<lambda>p. 1 \<le> life p \<and> life p \<le> 3 / 2 \<and> opacity p = 1) (burst rnd)) \<and>
         (particles (stateOf (placeBlock rnd s)) = particles s \<or>
          particles (stateOf (placeBlock rnd s)) = particles s @ burst rnd)"
proof -
  have wf: "wellFormed s"
    unfolding assms(1) using wellFormed_constructor by (rule wellFormed_run)
  have p0: "list_all liveParticle (particles constructor)"
    by (simp add: constructor_def spawnBaseBlock_def cleanup_def)
  have a: "list_all liveParticle (particles s)"
    unfolding assms(1) using wellFormed_constructor p0 assms(2) by (rule particles_run)
  from wf have "currentBlock s \<noteq> None \<longrightarrow> stack s \<noteq> []"
    by (auto simp: wellFormed_def)
  from animate_frame [OF this] obtain s' where s': "animate s = Inr s'"
    "particles s' = stepParticles (particles s)"
    by blast
  have f: "(\<lambda>p. \<not> life p - decayRate \<le> 0) = (\<lambda>p. decayRate < life p)"
    by auto
  have b: "\<exists>s'. animate s = Inr s' \<and>
            particles s' =
              map (\<lambda>p. p\<lparr>life := life p - decayRate, opacity := life p - decayRate\<rparr>)
                (filter (\<lambda>p. \<not> life p - decayRate \<le> 0) (particles s))"
    using s' unfolding f by (simp add: stepParticles_filter)
  have c: "unitDraws rnd \<longrightarrow>
            list_all (\<lambda>p. 1 \<le> life p \<and> life p \<le> 3 / 2 \<and> opacity p = 1) (burst rnd)"
    by (auto simp: burst_def list_all_iff unitDraws_def intro: less_imp_le)
  from a b c particles_placeBlock [OF wf, of rnd] show ?thesis
    by (simp add: decayRate_def)
qed

theorem particle_life_witness:
  "firstPerfect = run (StartGame # tap 80 steady) constructor \<and>
   list_all drawsOk (StartGame # tap 80 steady) \<and> unitDraws steady \<and>
   list_all liveParticle (particles firstPerfect) \<and>
   list_all (\<lambda>p. 1 \<le> life p \<and> life p \<le> 3 / 2 \<and> opacity p = 1) (burst steady)"
proof -
  have e: "firstPerfect = run (StartGame # tap 80 steady) constructor"
    by (simp add: firstPerfect_def)
  have u: "unitDraws steady"
    by (simp add: unitDraws_def steady_def)
  then have d: "list_all drawsOk (StartGame # tap 80 steady)"
    by (simp add: tap_def list_all_iff)
  from particle_life [OF e d, of steady] u e d show ?thesis
    by blast
qed

theorem particle_life_above_one_counterexample:
  "unitDraws steady \<and> length (particles firstPerfect) = 20 \<and>
   life (hd (particles firstPerfect)) = 5 / 4 \<and> \<not> life (hd (particles firstPerfect)) \<le> 1"
proof -
  have "unitDraws steady"
    by (simp add: unitDraws_def steady_def)
  moreover have "hd (particles firstPerfect) = \<lparr>life = 5 / 4, opacity = 1\<rparr>"
    by (simp add: firstPerfect_particles burst_def particleCount_def steady_def upt_conv_Cons hd_map)
  moreover have "length (particles firstPerfect) = 20"
    by (simp add: firstPerfect_particles burst_def particleCount_def)
  ultimately show ?thesis
    by simp
qed

text \<open>
  C10. \<^verbatim>\<open>startGame\<close> itself calls \<^verbatim>\<open>onScoreUpdate(0, 1)\<close>: it returns with exactly that
  one call added to the calls made so far, with score 0 and combo 0, and with only the base
  block on the tower, before any block has been placed.
\<close>

theorem startGame_reports_zero:
  "\<exists>s'. startGame s = Inr s' \<and> events s' = events s @ [ScoreUpdate 0 1] \<and>
        score s' = 0 \<and> comboCounter s' = 0 \<and> isGameRunning s' \<and>
        stack s' = [\<lparr>position = Vector3 0 0 0, width = defaultBlockSize, depth = defaultBlockSize\<rparr>]"
  by (simp add: startGame_def spawnBaseBlock_def cleanup_def spawnNextBlock_def Let_def)

theorem startGame_reports_zero_witness:
  "events constructor = [] \<and> events (stateOf (startGame constructor)) = [ScoreUpdate 0 1]"
proof -
  have e: "events constructor = []"
    by (simp add: constructor_def spawnBaseBlock_def cleanup_def)
  from startGame_reports_zero [of constructor] obtain s' where
    "startGame constructor = Inr s'" "events s' = events constructor @ [ScoreUpdate 0 1]"
    by blast
  with e show ?thesis
    by (simp add: stateOf_simps)
qed

end
